theory Spec2Isabelle
  imports Complex_Main
begin

section \<open>KyBook3Sync: the Calibre to KyBook 3 synchroniser (cal2ky3.py)\<close>

text \<open>
  The development follows \<^verbatim>\<open>src/cal2ky3.py\<close>, a Python 2 module. Python values are
  modelled as follows: \<^verbatim>\<open>str\<close> and \<^verbatim>\<open>unicode\<close> as \<^typ>\<open>string\<close> (a list of bytes;
  the implicit conversions of Python 2 between the two are not modelled), \<^verbatim>\<open>None\<close>
  where a string is expected as \<^term>\<open>None :: string option\<close>, \<^verbatim>\<open>int\<close> as
  \<^typ>\<open>int\<close> or \<^typ>\<open>nat\<close>, \<^verbatim>\<open>float\<close> as \<^typ>\<open>real\<close>, and an exception that leaves a
  function as the \<open>Inl\<close> side of a sum or as \<open>Some\<close> error beside the state it leaves
  behind. What the program reads from outside (the server's answers, the local files,
  the cover pictures, Calibre's database, the clock) is a parameter of the functions.
  Log lines of level \<^verbatim>\<open>DEBUG\<close> are not modelled, the exceptions raised while
  \<^verbatim>\<open>Database.execute\<close> puts one together are.
\<close>

subsection \<open>\<^verbatim>\<open>KyBookDB._remove_html_markup\<close>\<close>

text \<open>
  The loop of \<^verbatim>\<open>_remove_html_markup\<close> keeps three variables: \<^verbatim>\<open>tag\<close>,
  \<^verbatim>\<open>quote\<close> and \<^verbatim>\<open>out\<close>. One iteration, in the order of the source's
  \<^verbatim>\<open>if/elif\<close> chain (\<open>CHR 0x22\<close> is the double quote, \<open>CHR 0x27\<close> the single one):
\<close>

fun markup_step :: "bool \<times> bool \<times> string \<Rightarrow> char \<Rightarrow> bool \<times> bool \<times> string" where
  "markup_step (tag, quote, out) c =
     (if c = CHR ''<'' \<and> \<not> quote then (True, quote, out)
      else if c = CHR ''>'' \<and> \<not> quote then (False, quote, out)
      else if (c = CHR 0x22 \<or> c = CHR 0x27) \<and> tag then (tag, \<not> quote, out)
      else if \<not> tag then (tag, quote, out @ [c])
      else (tag, quote, out))"

fun markup_loop :: "bool \<times> bool \<times> string \<Rightarrow> string \<Rightarrow> bool \<times> bool \<times> string" where
  "markup_loop st [] = st"
| "markup_loop st (c # cs) = markup_loop (markup_step st c) cs"

text \<open>
  \<^verbatim>\<open>if not string: return out\<close> covers both \<^verbatim>\<open>None\<close> and the empty string.
\<close>

definition remove_html_markup :: "string option \<Rightarrow> string" where
  "remove_html_markup string =
     (case string of
        None \<Rightarrow> ''''
      | Some s \<Rightarrow> if s = [] then '''' else snd (snd (markup_loop (False, False, '''') s)))"

text \<open>
  The loop invariant: \<^verbatim>\<open>quote\<close> is only set while \<^verbatim>\<open>tag\<close> is set, and \<^verbatim>\<open>out\<close>
  holds no angle bracket.
\<close>

definition markup_inv :: "bool \<times> bool \<times> string \<Rightarrow> bool" where
  "markup_inv st =
     (case st of (tag, quote, out) \<Rightarrow>
        (quote \<longrightarrow> tag) \<and> CHR ''<'' \<notin> set out \<and> CHR ''>'' \<notin> set out)"

subsection \<open>Exceptions\<close>

text \<open>
  The exceptions of Python and of its \<^verbatim>\<open>sqlite3\<close>, \<^verbatim>\<open>httplib\<close> and \<^verbatim>\<open>PIL\<close>
  libraries that the modelled code can raise. \<open>TransportError\<close> stands for any
  exception of \<^verbatim>\<open>httplib\<close> or the socket layer (connection refused, timeout),
  \<open>ReError\<close> for the \<^verbatim>\<open>error\<close> of the module \<^verbatim>\<open>re\<close>.
\<close>

datatype error =
    AttributeError | KeyError | TypeError | IndexError | ZeroDivisionError
  | UnboundLocalError | IOError | ImageError
  | OperationalError | IntegrityError | InterfaceError | OverflowError | ReError
  | TransportError

subsection \<open>Strings\<close>

text \<open>\<^verbatim>\<open>str.lower()\<close> on ASCII letters; other characters are left alone.\<close>

definition lower_char :: "char \<Rightarrow> char" where
  "lower_char c =
     (let n = (of_char c :: nat) in if 65 \<le> n \<and> n \<le> 90 then char_of (n + 32) else c)"

definition lower :: "string \<Rightarrow> string" where
  "lower s = map lower_char s"

subsection \<open>Book records supplied by the plugin\<close>

text \<open>
  \<^verbatim>\<open>jobs.py\<close> builds one dictionary per book from Calibre's metadata object and
  hands the list to \<^verbatim>\<open>cal2ky3.main\<close> as \<^verbatim>\<open>cal_data\<close>. The keys read by
  \<^verbatim>\<open>cal2ky3.py\<close> are the fields below. A Python 2 dictionary (\<^verbatim>\<open>author_sort_map\<close>,
  \<^verbatim>\<open>identifiers\<close>) is an association list in the order that \<^verbatim>\<open>.items()\<close> yields.
  The six keys that \<^verbatim>\<open>CalibreDB.get_metadata\<close> adds are optional fields: \<open>None\<close>
  means that the key is not in the dictionary.
\<close>

datatype pubdate = NoPubdate | PubdateNone | PubdateDatetime string | PubdateStr string

record cal_datum =
  cd_id :: int
  cd_title :: string
  cd_path :: string
  cd_paths :: "string list"
  cd_pubdate :: pubdate
  cd_comments :: "string option"
  cd_author_sort_map :: "(string \<times> string) list"
  cd_series :: "string option"
  cd_series_index :: "real option"
  cd_tags :: "string list"
  cd_identifiers :: "(string \<times> string) list"
  cd_languages :: "string list"
  cd_publisher :: "string option"
  cd_rating :: "int option"
  cd_authors :: "(string \<times> string) list option"
  cd_sequences :: "string option list option"
  cd_subjects :: "string list option"
  cd_ebookids :: "(string \<times> string) list option"
  cd_language :: "string option"
  cd_publishers :: "string option list option"

text \<open>
  In \<^verbatim>\<open>cd_pubdate\<close>, \<open>NoPubdate\<close> is a missing key, \<open>PubdateNone\<close> is \<^verbatim>\<open>None\<close>,
  \<open>PubdateDatetime s\<close> is a \<^verbatim>\<open>datetime\<close> whose \<^verbatim>\<open>isoformat()\<close> is \<open>s\<close>, and
  \<open>PubdateStr s\<close> is a string. In \<^verbatim>\<open>cd_comments\<close>, \<^verbatim>\<open>cd_series\<close> and
  \<^verbatim>\<open>cd_publisher\<close>, \<open>None\<close> is Python's \<^verbatim>\<open>None\<close>. \<^verbatim>\<open>cd_series_index\<close> is a
  float or \<^verbatim>\<open>None\<close>, \<^verbatim>\<open>cd_rating\<close> a number or \<^verbatim>\<open>None\<close>.
\<close>

text \<open>
  A row of the live query of \<^verbatim>\<open>CalibreDB.get_metadata\<close> is an \<^verbatim>\<open>sqlite3.Row\<close>
  with the columns of the \<^verbatim>\<open>SELECT\<close>.
\<close>

record live_row =
  lr_id :: int
  lr_title :: string
  lr_pubdate :: "string option"
  lr_language :: "string option"
  lr_comments :: "string option"
  lr_path :: string
  lr_last_modified :: string

datatype row = DictRow cal_datum | SqliteRow live_row

text \<open>
  An entry of \<^verbatim>\<open>lookup_rows\<close> in \<^verbatim>\<open>_ins_book_to_link_tables\<close>: a pair (an author
  with its sort key, an identifier scheme with its value) or a single name, which is
  \<^verbatim>\<open>None\<close> for a book without series or publisher.
\<close>

datatype item = Pair string string | Name "string option"

text \<open>
  \<^verbatim>\<open>CalibreDB\<close>: \<^verbatim>\<open>cal_data\<close> is the plugin's list (empty or \<^verbatim>\<open>None\<close> when the
  script runs on its own). Calibre's own database is not under \<^verbatim>\<open>src/\<close>; the results
  of the three read queries that the code sends to it are fields of the record:
  \<^verbatim>\<open>live_books\<close> for the query of \<^verbatim>\<open>get_metadata\<close>, \<^verbatim>\<open>live_lookup\<close> for
  the query of \<^verbatim>\<open>_ins_book_to_link_tables\<close> (per Calibre table name and book, each
  row reduced to the columns that the code reads), \<^verbatim>\<open>live_ratings\<close> for the number
  of rows of the query of \<^verbatim>\<open>_ins_book_to_reviews\<close>.
\<close>

record calibre_db =
  cal_data :: "cal_datum list"
  live_books :: "live_row list"
  live_lookup :: "string \<Rightarrow> int \<Rightarrow> item list"
  live_ratings :: "int \<Rightarrow> nat"

subsection \<open>\<^verbatim>\<open>CalibreDB.get_metadata\<close>\<close>

text \<open>
  The body of the loop over \<^verbatim>\<open>self._cal_data\<close>. The condition of the source is
  \<^verbatim>\<open>'language' in cal_datum['languages']\<close>: membership of the literal string
  \<^verbatim>\<open>'language'\<close> in the list of languages. Where it holds the list is not empty, so
  \<^verbatim>\<open>cal_datum['languages'][0]\<close> does not raise.
\<close>

definition reshape_datum :: "cal_datum \<Rightarrow> cal_datum" where
  "reshape_datum d =
     d\<lparr>cd_authors := Some (cd_author_sort_map d),
       cd_sequences := Some [cd_series d],
       cd_subjects := Some (cd_tags d),
       cd_ebookids := Some (cd_identifiers d),
       cd_language :=
         (if ''language'' \<in> set (cd_languages d)
          then Some (lower (take 2 (hd (cd_languages d))))
          else Some ''''),
       cd_publishers := Some [cd_publisher d]\<rparr>"

text \<open>
  \<^verbatim>\<open>get_metadata\<close> changes the dictionaries in place and returns the list; the model
  returns the rows together with the changed \<^verbatim>\<open>CalibreDB\<close>.
\<close>

definition get_metadata :: "calibre_db \<Rightarrow> row list \<times> calibre_db" where
  "get_metadata cal_db =
     (if cal_data cal_db \<noteq> []
      then (let ds = map reshape_datum (cal_data cal_db)
            in (map DictRow ds, cal_db\<lparr>cal_data := ds\<rparr>))
      else (map SqliteRow (live_books cal_db), cal_db))"

subsection \<open>Thumbnails\<close>

text \<open>
  An image is its size \<open>(width, height)\<close> in pixels, as \<^verbatim>\<open>image.size\<close>. The pixels
  and the JPEG encoder of \<^verbatim>\<open>PIL\<close> are not modelled: a thumbnail is the empty string
  or the JPEG of a picture of a given size. Floats are modelled as exact real numbers; the
  two agree wherever the exact value is not within a rounding error of an integer. Where
  the exact product is an integer, the float can fall just below it and \<^verbatim>\<open>int()\<close> then
  gives one less than the model: for a picture of 285 by 285 pixels,
  \<^verbatim>\<open>int(285.0 * (74 / 285.0))\<close> is 73, the model's height 74.
\<close>

type_synonym image = "nat \<times> nat"

datatype thumb = EmptyThumb | Jpeg nat nat

definition THUMB_WIDTH :: nat where "THUMB_WIDTH = 74"
definition THUMB_HEIGHT :: nat where "THUMB_HEIGHT = 105"

text \<open>
  \<^verbatim>\<open>image.resize((width, height), Image.ANTIALIAS)\<close>. A picture with an empty side
  cannot be scaled to or written as a JPEG: \<^verbatim>\<open>PIL\<close> raises (which exception depends
  on its version).
\<close>

definition resize :: "nat \<times> nat \<Rightarrow> error + image" where
  "resize wh = (if fst wh = 0 \<or> snd wh = 0 then Inl ImageError else Inr wh)"

text \<open>
  \<^verbatim>\<open>_reduce_image_size\<close>. The module is Python 2 without
  \<^verbatim>\<open>from __future__ import division\<close>, and \<^verbatim>\<open>image.size\<close> holds integers, so
  \<^verbatim>\<open>height / width\<close> is the floor division, which raises for a zero divisor.
  \<^verbatim>\<open>int()\<close> of a float that is not negative is its floor.
\<close>

definition reduce_image_size :: "image \<Rightarrow> nat \<Rightarrow> nat \<Rightarrow> error + image" where
  "reduce_image_size img thumb_height thumb_width =
     (let width = fst img; height = snd img in
      if width = 0 then Inl ZeroDivisionError
      else if (of_nat (height div width) :: real) > 1418918918918919 / 1000000000000000
      then (let height' = thumb_height;
                reduction = (of_nat height' :: real) / of_nat (snd img);
                width' = nat \<lfloor>(of_nat (fst img) :: real) * reduction\<rfloor>
            in resize (width', height'))
      else (let width' = thumb_width;
                reduction = (of_nat width' :: real) / of_nat (fst img);
                height' = nat \<lfloor>(of_nat (snd img) :: real) * reduction\<rfloor>
            in resize (width', height')))"

text \<open>
  \<^verbatim>\<open>_get_thumb\<close>. The cover is looked for in the library folder of the book when
  \<^verbatim>\<open>row['path']\<close> is not empty, else beside the first file of \<^verbatim>\<open>row['paths']\<close>.
  The file system is a parameter: \<open>open_cover\<close> gives the decoded picture at a
  location, or \<open>None\<close> where \<^verbatim>\<open>open\<close> or \<^verbatim>\<open>Image.open\<close> raise \<^verbatim>\<open>IOError\<close>
  (caught and logged by the source).
\<close>

datatype cover_location = InLibrary string | BesideFile string

definition cover_file :: "cal_datum \<Rightarrow> error + cover_location" where
  "cover_file d =
     (if cd_path d \<noteq> [] then Inr (InLibrary (cd_path d))
      else (case cd_paths d of [] \<Rightarrow> Inl IndexError | p # _ \<Rightarrow> Inr (BesideFile p)))"

definition get_thumb ::
  "(cover_location \<Rightarrow> image option) \<Rightarrow> cal_datum \<Rightarrow> error + thumb \<times> real" where
  "get_thumb open_cover d =
     (case cover_file d of
        Inl e \<Rightarrow> Inl e
      | Inr loc \<Rightarrow>
          (case open_cover loc of
             None \<Rightarrow> Inr (EmptyThumb, 0)
           | Some img \<Rightarrow>
               (case (if fst img > THUMB_WIDTH \<or> snd img > THUMB_HEIGHT
                      then reduce_image_size img THUMB_HEIGHT THUMB_WIDTH
                      else Inr img) of
                  Inl e \<Rightarrow> Inl e
                | Inr reduced_image \<Rightarrow>
                    if fst reduced_image = 0 then Inl ZeroDivisionError
                    else if snd reduced_image = 0 then Inl ImageError
                    else Inr (Jpeg (fst reduced_image) (snd reduced_image),
                              of_nat (snd reduced_image) / of_nat (fst reduced_image)))))"

subsection \<open>\<^verbatim>\<open>ContentServer\<close>: the HTTP client\<close>

text \<open>
  The server and the network are the environment: \<open>srv n\<close> is the outcome of the
  \<open>n\<close>-th HTTP request that the process sends, either a transport-level exception out
  of \<^verbatim>\<open>http.request\<close> or \<^verbatim>\<open>http.getresponse\<close>, or a response (\<^verbatim>\<open>rs_body\<close> is
  what \<^verbatim>\<open>resp.read()\<close> returns). The state that the client threads through its
  calls counts the requests sent, records what the process did (requests with their
  outcome, \<^verbatim>\<open>time.sleep\<close>, log lines of level \<^verbatim>\<open>INFO\<close> and above), and holds the
  local files (path to content; only regular files). The fields \<^verbatim>\<open>_host\<close>,
  \<^verbatim>\<open>_username\<close> and \<^verbatim>\<open>_password\<close> only go into the headers and are left out.
\<close>

record response =
  rs_status :: nat
  rs_reason :: string
  rs_body :: string

datatype outcome = Raises | Reply response

datatype payload =
    NoPayload
  | Form "(string \<times> string) list"
  | Multipart "(string \<times> string) list" "(string \<times> string \<times> string) list"

datatype event =
    Request string string payload outcome
  | Sleep nat
  | LogInfo string
  | LogCritical string

record world =
  w_requests :: nat
  w_trace :: "event list"
  w_files :: "string \<Rightarrow> string option"

definition emit :: "event \<Rightarrow> world \<Rightarrow> world" where
  "emit e s = s\<lparr>w_trace := w_trace s @ [e]\<rparr>"

text \<open>One request: the outcome is read off the environment and recorded.\<close>

definition send :: "(nat \<Rightarrow> outcome) \<Rightarrow> string \<Rightarrow> string \<Rightarrow> payload \<Rightarrow> world \<Rightarrow> outcome \<times> world" where
  "send srv method url pl s =
     (let out = srv (w_requests s)
      in (out, emit (Request method url pl out) (s\<lparr>w_requests := Suc (w_requests s)\<rparr>)))"

text \<open>
  \<^verbatim>\<open>_http_conn\<close> has no \<^verbatim>\<open>try\<close>: an exception of the request leaves the function.
\<close>

definition http_conn ::
  "(nat \<Rightarrow> outcome) \<Rightarrow> string \<Rightarrow> string \<Rightarrow> payload \<Rightarrow> world \<Rightarrow> (error + response) \<times> world" where
  "http_conn srv method url pl s =
     (case send srv method url pl s of
        (Raises, s') \<Rightarrow> (Inl TransportError, s')
      | (Reply resp, s') \<Rightarrow> (Inr resp, s'))"

text \<open>
  \<^verbatim>\<open>_post_multipart\<close>: the recursion on \<^verbatim>\<open>tries\<close>, which \<^verbatim>\<open>upload_file\<close>
  starts at the default 5. The \<^verbatim>\<open>except Exception\<close> clause sleeps one second and
  calls the function again with \<^verbatim>\<open>tries - 1\<close>. The constructor
  \<^verbatim>\<open>httplib.HTTPConnection(self._host, timeout=30)\<close> only parses the host, which
  \<^verbatim>\<open>ContentServer.__init__\<close> has parsed before; the exceptions come from the request,
  so \<^verbatim>\<open>http\<close> is bound when the \<^verbatim>\<open>finally\<close> clause closes it.
\<close>

fun post_multipart ::
  "(nat \<Rightarrow> outcome) \<Rightarrow> string \<Rightarrow> (string \<times> string) list \<Rightarrow> (string \<times> string \<times> string) list
     \<Rightarrow> nat \<Rightarrow> world \<Rightarrow> response option \<times> world" where
  "post_multipart srv url fields_arg files_arg 0 s = (None, s)"
| "post_multipart srv url fields_arg files_arg (Suc tries) s =
     (case send srv ''POST'' url (Multipart fields_arg files_arg) s of
        (Raises, s') \<Rightarrow> post_multipart srv url fields_arg files_arg tries (emit (Sleep 1) s')
      | (Reply resp, s') \<Rightarrow> (Some resp, s'))"

definition file_exists :: "(nat \<Rightarrow> outcome) \<Rightarrow> string \<Rightarrow> world \<Rightarrow> (error + bool) \<times> world" where
  "file_exists srv remote_file s =
     (case http_conn srv ''HEAD'' (''/download?path='' @ remote_file) NoPayload s of
        (Inl e, s') \<Rightarrow> (Inl e, s')
      | (Inr resp, s') \<Rightarrow> (Inr (rs_status resp = 200), s'))"

definition dir_exists :: "(nat \<Rightarrow> outcome) \<Rightarrow> string \<Rightarrow> world \<Rightarrow> (error + bool) \<times> world" where
  "dir_exists srv remote_dir s =
     (case http_conn srv ''HEAD'' (''/list?path='' @ remote_dir) NoPayload s of
        (Inl e, s') \<Rightarrow> (Inl e, s')
      | (Inr resp, s') \<Rightarrow> (Inr (rs_status resp = 200), s'))"

definition delete_path :: "(nat \<Rightarrow> outcome) \<Rightarrow> string \<Rightarrow> world \<Rightarrow> (error + bool) \<times> world" where
  "delete_path srv path s =
     (case http_conn srv ''POST'' ''/delete'' (Form [(''path'', path)]) s of
        (Inl e, s') \<Rightarrow> (Inl e, s')
      | (Inr resp, s') \<Rightarrow> (Inr (rs_status resp = 200), s'))"

text \<open>\<^verbatim>\<open>os.path.basename\<close> (POSIX): what follows the last slash.\<close>

definition basename :: "string \<Rightarrow> string" where
  "basename p = rev (takeWhile (\<lambda>c. c \<noteq> CHR ''/'') (rev p))"

text \<open>
  The block of \<^verbatim>\<open>upload_file\<close> under \<^verbatim>\<open>if del_existing:\<close>. The exceptions of
  \<^verbatim>\<open>file_exists\<close> and \<^verbatim>\<open>delete_path\<close> are not caught; the result of
  \<^verbatim>\<open>delete_path\<close> only selects a debug log line.
\<close>

definition delete_existing :: "(nat \<Rightarrow> outcome) \<Rightarrow> string \<Rightarrow> world \<Rightarrow> (error + unit) \<times> world" where
  "delete_existing srv path_to_delete s =
     (case file_exists srv path_to_delete s of
        (Inl e, s') \<Rightarrow> (Inl e, s')
      | (Inr False, s') \<Rightarrow> (Inr (), s')
      | (Inr True, s') \<Rightarrow>
          (case delete_path srv path_to_delete s' of
             (Inl e, s'') \<Rightarrow> (Inl e, s'')
           | (Inr _, s'') \<Rightarrow> (Inr (), s'')))"

text \<open>
  \<^verbatim>\<open>if not remote_file: remote_file = str(os.path.basename(local_file))\<close>.
\<close>

definition remote_name :: "string \<Rightarrow> string option \<Rightarrow> string" where
  "remote_name local_file remote_file =
     (case remote_file of
        None \<Rightarrow> basename local_file
      | Some f \<Rightarrow> if f = [] then basename local_file else f)"

text \<open>
  \<^verbatim>\<open>upload_file\<close>. \<^verbatim>\<open>open(local_file, 'rb')\<close> raises \<^verbatim>\<open>IOError\<close> for a missing
  file. The function has no \<^verbatim>\<open>return\<close>: its result is \<^verbatim>\<open>None\<close>, and success or
  failure is the log line.
\<close>

definition upload_file ::
  "(nat \<Rightarrow> outcome) \<Rightarrow> string \<Rightarrow> string \<Rightarrow> string option \<Rightarrow> bool \<Rightarrow> world \<Rightarrow> (error + unit) \<times> world" where
  "upload_file srv local_file remote_dir remote_file del_existing s =
     (case w_files s local_file of
        None \<Rightarrow> (Inl IOError, s)
      | Some contents \<Rightarrow>
          (let remote_file' = remote_name local_file remote_file;
               files_arg = [(''files[]'', remote_file', contents)];
               data = [(''path'', remote_dir)]
           in case (if del_existing
                    then delete_existing srv (remote_dir @ ''/'' @ remote_file') s
                    else (Inr (), s)) of
                (Inl e, s1) \<Rightarrow> (Inl e, s1)
              | (Inr _, s1) \<Rightarrow>
                  (let s2 = emit (LogInfo (''Uploading '' @ local_file @ '' to '' @ remote_dir @ remote_file')) s1
                   in case post_multipart srv ''/upload'' data files_arg 5 s2 of
                        (Some resp, s3) \<Rightarrow> (Inr (), emit (LogInfo (rs_reason resp)) s3)
                      | (None, s3) \<Rightarrow> (Inr (), emit (LogInfo ''Failed!'') s3))))"

text \<open>\<^verbatim>\<open>download_file\<close> writes the local file only for status 200.\<close>

definition download_file ::
  "(nat \<Rightarrow> outcome) \<Rightarrow> string \<Rightarrow> string \<Rightarrow> world \<Rightarrow> (error + unit) \<times> world" where
  "download_file srv remote_file local_file s =
     (let s0 = emit (LogInfo (''Downloading '' @ remote_file @ '' to '' @ local_file)) s
      in case http_conn srv ''GET'' (''/download?path='' @ remote_file) NoPayload s0 of
           (Inl e, s1) \<Rightarrow> (Inl e, s1)
         | (Inr resp, s1) \<Rightarrow>
             (let s2 = emit (LogInfo (rs_reason resp)) s1
              in if rs_status resp = 200
                 then (Inr (),
                       emit (LogInfo (remote_file @ '' written to '' @ local_file))
                         (s2\<lparr>w_files := (w_files s2)(local_file \<mapsto> rs_body resp)\<rparr>))
                 else (Inr (), s2)))"

text \<open>
  \<^verbatim>\<open>download_db_file\<close>. \<open>stamp\<close> is the clock reading
  \<^verbatim>\<open>datetime.now().strftime("-%Y%m%d-%H%M%S")\<close>; \<^verbatim>\<open>shutil.copyfile\<close> writes the
  backup.
\<close>

definition download_db_file ::
  "(nat \<Rightarrow> outcome) \<Rightarrow> string \<Rightarrow> string \<Rightarrow> string \<Rightarrow> world \<Rightarrow> (error + bool) \<times> world" where
  "download_db_file srv path local_path stamp s =
     (case download_file srv path local_path s of
        (Inl e, s1) \<Rightarrow> (Inl e, s1)
      | (Inr _, s1) \<Rightarrow>
          (case w_files s1 local_path of
             Some (c # cs) \<Rightarrow>
               (let backup = local_path @ stamp
                in (Inr True,
                    emit (LogInfo (local_path @ '' copied to '' @ backup))
                      (s1\<lparr>w_files := (w_files s1)(backup \<mapsto> c # cs)\<rparr>)))
           | _ \<Rightarrow>
               (Inr False,
                emit (LogCritical (''No file at '' @ local_path @ '' or it is empty.'')) s1)))"

text \<open>Observers of the record of what a call did, used to state properties.\<close>

definition is_upload :: "event \<Rightarrow> bool" where
  "is_upload e = (case e of Request m u _ _ \<Rightarrow> m = ''POST'' \<and> u = ''/upload'' | _ \<Rightarrow> False)"

definition is_failed_upload :: "event \<Rightarrow> bool" where
  "is_failed_upload e =
     (case e of Request m u _ out \<Rightarrow> m = ''POST'' \<and> u = ''/upload'' \<and> out = Raises | _ \<Rightarrow> False)"

definition is_sleep :: "event \<Rightarrow> bool" where
  "is_sleep e = (case e of Sleep _ \<Rightarrow> True | _ \<Rightarrow> False)"

text \<open>
  The behaviour of the server that decides a run of uploads: \<open>raising srv n tries\<close> is
  the number of requests in a row, from the \<open>n\<close>-th on and at most \<open>tries\<close>, that
  raise. \<open>retried pl k\<close> are the events of \<open>k\<close> failed attempts with payload \<open>pl\<close>,
  each followed by its pause, and \<open>reason_of\<close> is the reason phrase of an answer.
\<close>

definition raising :: "(nat \<Rightarrow> outcome) \<Rightarrow> nat \<Rightarrow> nat \<Rightarrow> nat" where
  "raising srv n tries = length (takeWhile (\<lambda>i. srv i = Raises) [n ..< n + tries])"

definition retried :: "payload \<Rightarrow> nat \<Rightarrow> event list" where
  "retried pl k = concat (replicate k [Request ''POST'' ''/upload'' pl Raises, Sleep 1])"

definition reason_of :: "outcome \<Rightarrow> string" where
  "reason_of out = (case out of Reply resp \<Rightarrow> rs_reason resp | Raises \<Rightarrow> [])"

text \<open>
  A failed upload attempt is directly followed by a pause of one second.
\<close>

fun pauses_follow :: "event list \<Rightarrow> bool" where
  "pauses_follow [] = True"
| "pauses_follow (e # es) =
     ((is_failed_upload e \<longrightarrow> (case es of Sleep n # _ \<Rightarrow> n = 1 | _ \<Rightarrow> False)) \<and> pauses_follow es)"

text \<open>No upload attempt follows one that got a response.\<close>

fun stops_at_success :: "event list \<Rightarrow> bool" where
  "stops_at_success [] = True"
| "stops_at_success (e # es) =
     ((is_upload e \<and> \<not> is_failed_upload e \<longrightarrow> filter is_upload es = []) \<and> stops_at_success es)"

text \<open>
  What the events \<open>new\<close> of a run of \<^verbatim>\<open>_post_multipart\<close> with \<open>tries\<close> attempts
  and result \<open>resp\<close> satisfy; \<open>quiet\<close> events are neither upload attempts nor pauses.
\<close>

definition retry_ok :: "nat \<Rightarrow> event list \<Rightarrow> response option \<Rightarrow> bool" where
  "retry_ok tries new resp =
     (length (filter is_upload new) \<le> tries \<and>
      pauses_follow new \<and>
      length (filter is_sleep new) = length (filter is_failed_upload new) \<and>
      stops_at_success new \<and>
      (resp = None \<longleftrightarrow> length (filter is_failed_upload new) = tries) \<and>
      (new \<noteq> [] \<longrightarrow> \<not> is_failed_upload (last new)))"

definition quiet :: "event list \<Rightarrow> bool" where
  "quiet evs = (filter is_upload evs = [] \<and> filter is_sleep evs = [])"

subsection \<open>SQLite: values, rows, tables\<close>

text \<open>
  KyBook 3's database is a file that the program downloads, changes through
  \<^verbatim>\<open>sqlite3\<close> and uploads again. A value is one of SQLite's storage classes (a blob
  is only ever a thumbnail here), a row maps column names to values (\<open>Null\<close> for a
  column that holds \<^verbatim>\<open>NULL\<close>), and a database maps table names to their rows in
  scan order. The state is what the one open connection sees; \<^verbatim>\<open>commit()\<close> does not
  change it. Triggers and foreign-key actions are not modelled.
\<close>

datatype sqlval = Null | IntV int | RealV real | TextV string | BlobV thumb

type_synonym sqlrow = "string \<Rightarrow> sqlval"

type_synonym database = "string \<Rightarrow> sqlrow list"

text \<open>
  \<open>sql_eq a b\<close>: the comparison \<^verbatim>\<open>a = b\<close> is true (it is \<^verbatim>\<open>NULL\<close>, hence not true,
  when an operand is \<^verbatim>\<open>NULL\<close>). Integers and reals compare by value, texts byte by
  byte (the \<^verbatim>\<open>BINARY\<close> collation: the program writes between \<^verbatim>\<open>set_collation(OFF)\<close>
  and \<^verbatim>\<open>set_collation(ON)\<close>).
\<close>

fun sql_eq :: "sqlval \<Rightarrow> sqlval \<Rightarrow> bool" where
  "sql_eq (IntV a) (IntV b) = (a = b)"
| "sql_eq (IntV a) (RealV b) = (of_int a = b)"
| "sql_eq (RealV a) (IntV b) = (a = of_int b)"
| "sql_eq (RealV a) (RealV b) = (a = b)"
| "sql_eq (TextV a) (TextV b) = (a = b)"
| "sql_eq (BlobV a) (BlobV b) = (a = b)"
| "sql_eq _ _ = False"

text \<open>
  \<^verbatim>\<open>x LIKE pattern\<close>: \<^verbatim>\<open>%\<close> matches any run of characters, \<^verbatim>\<open>_\<close> any single
  one, and ASCII letters match without regard to case.
\<close>

fun like :: "string \<Rightarrow> string \<Rightarrow> bool" where
  "like [] s = (s = [])"
| "like (p # ps) [] = (p = CHR ''%'' \<and> like ps [])"
| "like (p # ps) (c # cs) =
     (if p = CHR ''%'' then like ps (c # cs) \<or> like (p # ps) cs
      else (p = CHR ''_'' \<or> lower_char p = lower_char c) \<and> like ps cs)"

definition sql_like :: "sqlval \<Rightarrow> string \<Rightarrow> bool" where
  "sql_like v pattern = (case v of TextV s \<Rightarrow> like pattern s | _ \<Rightarrow> False)"

text \<open>
  \<^verbatim>\<open>x NOT IN (SELECT ...)\<close> is true: the subquery is empty, or \<open>x\<close> is not
  \<^verbatim>\<open>NULL\<close>, equals none of the values and none of them is \<^verbatim>\<open>NULL\<close>.
\<close>

definition sql_not_in :: "sqlval \<Rightarrow> sqlval list \<Rightarrow> bool" where
  "sql_not_in x vs = (vs = [] \<or> (x \<noteq> Null \<and> Null \<notin> set vs \<and> \<not> (\<exists>v \<in> set vs. sql_eq x v)))"

text \<open>
  A column declared \<^verbatim>\<open>INTEGER PRIMARY KEY\<close> is the rowid: a row inserted with
  \<^verbatim>\<open>NULL\<close> there gets the largest rowid of the table plus one (1 in an empty table).
\<close>

definition rowid :: "string \<Rightarrow> sqlrow \<Rightarrow> int" where
  "rowid pk r = (case r pk of IntV i \<Rightarrow> i | _ \<Rightarrow> 0)"

fun max_rowid :: "string \<Rightarrow> sqlrow list \<Rightarrow> int option" where
  "max_rowid pk [] = None"
| "max_rowid pk (r # rs) =
     (case max_rowid pk rs of None \<Rightarrow> Some (rowid pk r) | Some m \<Rightarrow> Some (max (rowid pk r) m))"

definition next_rowid :: "string \<Rightarrow> sqlrow list \<Rightarrow> int" where
  "next_rowid pk rows = (case max_rowid pk rows of None \<Rightarrow> 1 | Some m \<Rightarrow> m + 1)"

text \<open>
  \<^verbatim>\<open>INSERT OR REPLACE\<close> into a table with rowid column \<open>pk\<close> and one \<^verbatim>\<open>UNIQUE\<close>
  constraint over the columns \<open>uniq\<close>: the rows that clash with the new one on the
  primary key or on the unique columns are deleted, then the new row is inserted.
\<close>

definition insert_or_replace :: "string \<Rightarrow> string list \<Rightarrow> sqlrow \<Rightarrow> sqlrow list \<Rightarrow> sqlrow list" where
  "insert_or_replace pk uniq new rows =
     (let new' = (if new pk = Null then new(pk := IntV (next_rowid pk rows)) else new);
          kept = filter (\<lambda>r. \<not> sql_eq (r pk) (new' pk)
                            \<and> \<not> (uniq \<noteq> [] \<and> (\<forall>c \<in> set uniq. sql_eq (r c) (new' c)))) rows
      in insort_key (rowid pk) new' kept)"

subsection \<open>\<^verbatim>\<open>Table\<close> and the module constants\<close>

text \<open>
  The attributes of \<^verbatim>\<open>Table\<close> that the modelled statements use; \<^verbatim>\<open>midcols\<close>, a
  comma-separated string in the source, is the list of its column names.
  \<^verbatim>\<open>extra_sql\<close> and \<^verbatim>\<open>questions\<close> are only text of SQL statements.
\<close>

record table =
  t_name :: string
  t_xid :: string
  t_maincol :: string
  t_midcols :: "string list"
  t_namecol :: string
  t_calname :: string
  t_calmain :: string

definition Table :: "string \<Rightarrow> table" where
  "Table name =
     (let t = \<lparr>t_name = name, t_xid = take 1 name @ ''id'', t_maincol = butlast name,
                t_midcols = [butlast name], t_namecol = butlast name,
                t_calname = name, t_calmain = butlast name\<rparr>
      in if name = ''authors''
         then t\<lparr>t_maincol := ''namekey'', t_midcols := [''namekey'', ''name''], t_namecol := ''name''\<rparr>
         else if name = ''publishers'' then t
         else if name = ''subjects'' then t\<lparr>t_calname := ''tags'', t_calmain := ''tag''\<rparr>
         else if name = ''sequences''
         then t\<lparr>t_xid := ''qid'', t_midcols := [''sequence''],
                 t_calname := ''series'', t_calmain := ''series''\<rparr>
         else if name = ''collections'' then t\<lparr>t_xid := ''lid''\<rparr>
         else if name = ''ebookids''
         then t\<lparr>t_midcols := [''scheme'', ''value''], t_namecol := ''value'',
                 t_calname := ''identifiers''\<rparr>
         else t)"

definition COLLATION_TABLES :: "string list" where
  "COLLATION_TABLES = [''authors'', ''publishers'', ''subjects'', ''sequences'']"

definition LOOKUP_TABLES :: "string list" where
  "LOOKUP_TABLES = COLLATION_TABLES @ [''ebookids'']"

definition EBOOK_SCHEMES :: "string \<Rightarrow> string option" where
  "EBOOK_SCHEMES =
     [''isbn'' \<mapsto> ''10'', ''amazon'' \<mapsto> ''15'', ''asin'' \<mapsto> ''15'', ''oclc'' \<mapsto> ''12'']"

text \<open>
  Modelled from the spec: the declaration of \<^verbatim>\<open>ebookids\<close> is not under \<^verbatim>\<open>src/\<close>.
  \<^verbatim>\<open>set_collation\<close> holds the \<^verbatim>\<open>CREATE TABLE\<close> of the four collation tables, with
  \<^verbatim>\<open>{xid} INTEGER NOT NULL PRIMARY KEY\<close> and \<^verbatim>\<open>{maincol} TEXT NOT NULL UNIQUE\<close>;
  for \<^verbatim>\<open>ebookids\<close> the spec says that a lookup row is identified by its value columns,
  here scheme and value, and the rowid key is taken to be as in the other lookup tables.
\<close>

definition unique_cols :: "table \<Rightarrow> string list" where
  "unique_cols tbl =
     (if t_name tbl \<in> set COLLATION_TABLES then [t_maincol tbl] else t_midcols tbl)"

text \<open>
  Modelled from the spec: the declaration of \<^verbatim>\<open>reviews\<close> is not under \<^verbatim>\<open>src/\<close>. The
  spec gives at most one review row per book, so \<^verbatim>\<open>bid\<close> is a key of the table. How the
  column treats \<^verbatim>\<open>NULL\<close> is left open as a parameter: it is the rowid
  (\<^verbatim>\<open>INTEGER PRIMARY KEY\<close>), or it is declared \<^verbatim>\<open>NOT NULL\<close>, or it accepts \<^verbatim>\<open>NULL\<close>.
\<close>

datatype bid_decl = BidRowid | BidNotNull | BidNullable

text \<open>
  \<^verbatim>\<open>KyBookDB\<close>: the option \<^verbatim>\<open>_remove_html\<close>, the declaration of \<^verbatim>\<open>reviews.bid\<close> in
  the database file, and the tables.
\<close>

record kybook_db =
  kd_remove_html :: bool
  kd_reviews_bid :: bid_decl
  kd_tables :: database

subsection \<open>\<^verbatim>\<open>Database.execute\<close>\<close>

text \<open>
  Before it runs a statement with parameters, \<^verbatim>\<open>Database.execute\<close> renders it for the
  debug log, whatever the log level: it binds the parameters to
  \<^verbatim>\<open>SELECT quote(?), ...\<close>, and for every quoted value in turn it calls
  \<^verbatim>\<open>re.sub(pattern, r'\g<1>' + unicode(quoted_value), saved_sql, 1)\<close>. Both steps can
  raise, and then the statement itself does not run.

  Binding raises \<^verbatim>\<open>OverflowError\<close> for a Python integer outside the 64-bit range.
  \<^verbatim>\<open>quote\<close> puts a text, up to its first NUL character, between single quotes and
  doubles the single quotes in it. \<^verbatim>\<open>re.sub\<close> reads its second argument as a
  replacement template, in which a backslash starts an escape: a template whose only
  backslash is that of the leading \<^verbatim>\<open>\g<1>\<close> stands for the matched group followed
  by the rest as it is, and nothing is raised; for any other, Python's module \<^verbatim>\<open>re\<close>
  decides (it raises, for instance, for the group reference \<^verbatim>\<open>\2\<close>, the pattern
  having one group). That library is not part of the program: what it raises for a
  quoted text that holds a backslash is the parameter \<open>sub\<close> of the model (\<open>None\<close>:
  nothing). Every statement of the program has a place for each of its parameters where
  the pattern matches, and writing a value removes no such place, so the template is
  expanded for every parameter and the outcome does not depend on the statement.
  Numbers, \<^verbatim>\<open>NULL\<close> and blobs are quoted without backslash.
\<close>

definition plain :: "string \<Rightarrow> bool" where
  "plain s = (CHR 0x5C \<notin> set s)"

definition sql_quote :: "string \<Rightarrow> string" where
  "sql_quote s =
     [CHR 0x27]
     @ concat (map (\<lambda>c. if c = CHR 0x27 then [c, c] else [c]) (takeWhile (\<lambda>c. c \<noteq> CHR 0x00) s))
     @ [CHR 0x27]"

definition bind_raises :: "sqlval \<Rightarrow> error option" where
  "bind_raises p =
     (case p of
        IntV i \<Rightarrow> if - (2 ^ 63) \<le> i \<and> i < 2 ^ 63 then None else Some OverflowError
      | _ \<Rightarrow> None)"

definition render_raises :: "(string \<Rightarrow> error option) \<Rightarrow> sqlval \<Rightarrow> error option" where
  "render_raises sub p =
     (case p of
        TextV s \<Rightarrow> if plain (sql_quote s) then None else sub (sql_quote s)
      | _ \<Rightarrow> None)"

text \<open>The first exception in a list of outcomes, in order.\<close>

fun first_error :: "error option list \<Rightarrow> error option" where
  "first_error [] = None"
| "first_error (None # rest) = first_error rest"
| "first_error (Some e # rest) = Some e"

definition execute_raises :: "(string \<Rightarrow> error option) \<Rightarrow> sqlval list \<Rightarrow> error option" where
  "execute_raises sub params =
     (case first_error (map bind_raises params) of
        Some e \<Rightarrow> Some e
      | None \<Rightarrow> first_error (map (render_raises sub) params))"

text \<open>
  \<^verbatim>\<open>execute(sql, params)\<close>, where \<open>statement\<close> is the effect of \<^verbatim>\<open>sql\<close> with these
  parameters on the database.
\<close>

definition execute ::
  "(string \<Rightarrow> error option) \<Rightarrow> sqlval list \<Rightarrow> (database \<Rightarrow> database) \<Rightarrow> database
     \<Rightarrow> error option \<times> database" where
  "execute sub params statement db =
     (case execute_raises sub params of
        Some e \<Rightarrow> (Some e, db)
      | None \<Rightarrow> (None, statement db))"

subsection \<open>The statements of \<^verbatim>\<open>KyBookDB\<close>\<close>

text \<open>\<^verbatim>\<open>(SELECT bid FROM books WHERE md5 = ?)\<close>: the first such row's \<^verbatim>\<open>bid\<close>, or \<^verbatim>\<open>NULL\<close>.\<close>

definition books_with :: "database \<Rightarrow> string \<Rightarrow> sqlrow list" where
  "books_with db md5 = filter (\<lambda>b. sql_eq (b ''md5'') (TextV md5)) (db ''books'')"

definition sel_bid :: "database \<Rightarrow> string \<Rightarrow> sqlval" where
  "sel_bid db md5 = (case books_with db md5 of [] \<Rightarrow> Null | b # _ \<Rightarrow> b ''bid'')"

text \<open>
  \<^verbatim>\<open>update_metadata_sql\<close>:
  \<^verbatim>\<open>UPDATE metadata SET title = ?, ..., coverhash = ? WHERE bid = (SELECT bid FROM books WHERE md5 = ?)\<close>.
\<close>

definition update_metadata ::
  "sqlval \<Rightarrow> sqlval \<Rightarrow> sqlval \<Rightarrow> sqlval \<Rightarrow> sqlval \<Rightarrow> sqlval \<Rightarrow> sqlval \<Rightarrow> string \<Rightarrow> database \<Rightarrow> database" where
  "update_metadata title published language annotation thumbnail aspectratio coverhash md5 db =
     db(''metadata'' :=
          map (\<lambda>r. if sql_eq (r ''bid'') (sel_bid db md5)
                    then r(''title'' := title, ''published'' := published, ''language'' := language,
                           ''annotation'' := annotation, ''thumbnail'' := thumbnail,
                           ''aspectratio'' := aspectratio, ''coverhash'' := coverhash)
                    else r)
            (db ''metadata''))"

text \<open>\<^verbatim>\<open>DELETE from {table} WHERE bid = (SELECT bid FROM books WHERE md5 = ?)\<close>.\<close>

definition delete_book_rows :: "string \<Rightarrow> string \<Rightarrow> database \<Rightarrow> database" where
  "delete_book_rows tname md5 db =
     db(tname := filter (\<lambda>r. \<not> sql_eq (r ''bid'') (sel_bid db md5)) (db tname))"

text \<open>
  \<^verbatim>\<open>_del_book_from_link_tables\<close>: the loop over \<^verbatim>\<open>self._lookup_tables\<close>, and
  \<^verbatim>\<open>_del_book_from_reviews\<close>.
\<close>

fun del_links :: "(string \<Rightarrow> error option) \<Rightarrow> string \<Rightarrow> string list \<Rightarrow> database \<Rightarrow> error option \<times> database" where
  "del_links sub md5 [] db = (None, db)"
| "del_links sub md5 (lookup_table # rest) db =
     (case execute sub [TextV md5] (delete_book_rows (''books_'' @ lookup_table) md5) db of
        (Some e, db') \<Rightarrow> (Some e, db')
      | (None, db') \<Rightarrow> del_links sub md5 rest db')"

definition del_book_from_link_tables ::
  "(string \<Rightarrow> error option) \<Rightarrow> string \<Rightarrow> database \<Rightarrow> error option \<times> database" where
  "del_book_from_link_tables sub md5 db = del_links sub md5 LOOKUP_TABLES db"

definition del_book_from_reviews ::
  "(string \<Rightarrow> error option) \<Rightarrow> string \<Rightarrow> database \<Rightarrow> error option \<times> database" where
  "del_book_from_reviews sub md5 db = execute sub [TextV md5] (delete_book_rows ''reviews'' md5) db"

text \<open>
  \<^verbatim>\<open>fill_lookups_sql\<close>:
  \<^verbatim>\<open>INSERT OR REPLACE INTO {name} ({xid}, {midcols}, timestamp) VALUES((SELECT {xid} FROM {name} WHERE {namecol} LIKE ?), {questions})\<close>.
  The first parameter is the name, then come the values \<open>vals\<close> of the middle columns
  and the timestamp. Columns that the statement does not list (\<^verbatim>\<open>ebookid\<close>) are
  \<^verbatim>\<open>NULL\<close> in the new row. The timestamp is bound as the text of a number,
  \<^verbatim>\<open>str((datetime.now() - offset).total_seconds())\<close>, and the column, declared
  \<^verbatim>\<open>REAL\<close>, stores the number: \<open>timestamp\<close> is that number.
\<close>

definition fill_lookups :: "table \<Rightarrow> string \<Rightarrow> sqlval list \<Rightarrow> real \<Rightarrow> database \<Rightarrow> database" where
  "fill_lookups tbl name vals timestamp db =
     (let rows = db (t_name tbl);
          xid = (case filter (\<lambda>r. sql_like (r (t_namecol tbl)) name) rows of
                   [] \<Rightarrow> Null
                 | r # _ \<Rightarrow> r (t_xid tbl));
          new = (fold (\<lambda>(c, v) r. r(c := v)) (zip (t_midcols tbl) vals)
                   ((\<lambda>_. Null)(t_xid tbl := xid)))(''timestamp'' := RealV timestamp)
      in db(t_name tbl := insert_or_replace (t_xid tbl) (unique_cols tbl) new rows))"

text \<open>
  Modelled from the spec: the declarations of the link tables \<^verbatim>\<open>books_*\<close> are not under
  \<^verbatim>\<open>src/\<close>. By the spec a link row is keyed by the pair of book id and lookup id, so
  \<^verbatim>\<open>INSERT OR REPLACE\<close> of a link row replaces the row with the same pair.
\<close>

definition insert_link :: "string \<Rightarrow> sqlrow \<Rightarrow> sqlrow list \<Rightarrow> sqlrow list" where
  "insert_link xid new rows =
     filter (\<lambda>r. \<not> (sql_eq (r ''bid'') (new ''bid'') \<and> sql_eq (r xid) (new xid))) rows @ [new]"

text \<open>
  \<^verbatim>\<open>ins_books_links_sql\<close>:
  \<^verbatim>\<open>INSERT OR REPLACE INTO books_{name} (bid, {xid}) SELECT books.bid, {name}.{xid} FROM books, {name} WHERE books.md5 = ? AND {name}.{namecol} = ?\<close>;
  for \<^verbatim>\<open>sequences\<close> the column \<^verbatim>\<open>seqnumber\<close> is added, with the number written into
  the statement as a literal (\<open>seq\<close>).
\<close>

definition ins_books_links :: "table \<Rightarrow> sqlval option \<Rightarrow> string \<Rightarrow> string \<Rightarrow> database \<Rightarrow> database" where
  "ins_books_links tbl seq md5 name db =
     (let selected =
            concat (map (\<lambda>b. map (\<lambda>l. (case seq of
                                          None \<Rightarrow> (\<lambda>_. Null)(''bid'' := b ''bid'', t_xid tbl := l (t_xid tbl))
                                        | Some n \<Rightarrow> (\<lambda>_. Null)(''bid'' := b ''bid'', t_xid tbl := l (t_xid tbl),
                                                                ''seqnumber'' := n)))
                              (filter (\<lambda>l. sql_eq (l (t_namecol tbl)) (TextV name)) (db (t_name tbl))))
                        (books_with db md5))
      in db(''books_'' @ t_name tbl :=
              fold (insert_link (t_xid tbl)) selected (db (''books_'' @ t_name tbl))))"

subsection \<open>\<^verbatim>\<open>KyBookDB._ins_book_to_link_tables\<close>\<close>

text \<open>
  The Python value of \<^verbatim>\<open>seqnumber\<close>: \<^verbatim>\<open>None\<close>, an \<^verbatim>\<open>int\<close>, or the falsy float
  that \<^verbatim>\<open>int(seqnumber) if seqnumber else seqnumber\<close> leaves as it is. \<^verbatim>\<open>int()\<close>
  truncates towards zero.
\<close>

datatype seqnumber = SeqNone | SeqInt int | SeqFloat real

definition py_int :: "real \<Rightarrow> int" where
  "py_int x = (if 0 \<le> x then \<lfloor>x\<rfloor> else \<lceil>x\<rceil>)"

definition seqnumber_of :: "real option \<Rightarrow> seqnumber" where
  "seqnumber_of series_index =
     (case series_index of
        None \<Rightarrow> SeqNone
      | Some x \<Rightarrow> if x \<noteq> 0 then SeqInt (py_int x) else SeqFloat x)"

text \<open>\<^verbatim>\<open>cal_datum[tbl.name]\<close>; \<open>None\<close> is a \<^verbatim>\<open>KeyError\<close>.\<close>

definition datum_rows :: "cal_datum \<Rightarrow> string \<Rightarrow> item list option" where
  "datum_rows d tname =
     (if tname = ''authors'' then map_option (map (\<lambda>(a, b). Pair a b)) (cd_authors d)
      else if tname = ''publishers'' then map_option (map Name) (cd_publishers d)
      else if tname = ''subjects'' then map_option (map (\<lambda>s. Name (Some s))) (cd_subjects d)
      else if tname = ''sequences'' then map_option (map Name) (cd_sequences d)
      else if tname = ''ebookids'' then map_option (map (\<lambda>(a, b). Pair a b)) (cd_ebookids d)
      else None)"

text \<open>
  The inner loop \<^verbatim>\<open>for cal_datum in cal_db.cal_data\<close>, which assigns the local
  variables \<^verbatim>\<open>seqnumber\<close> and \<^verbatim>\<open>lookup_rows\<close> (\<open>None\<close>: not yet bound) at every
  record with the book's id.
\<close>

fun scan_cal_data ::
  "table \<Rightarrow> int \<Rightarrow> cal_datum list \<Rightarrow> seqnumber \<times> item list option
     \<Rightarrow> error + seqnumber \<times> item list option" where
  "scan_cal_data tbl cal_bid [] vars = Inr vars"
| "scan_cal_data tbl cal_bid (cal_datum # rest) (seqnumber, lookup_rows) =
     (if cd_id cal_datum = cal_bid
      then (case datum_rows cal_datum (t_name tbl) of
              None \<Rightarrow> Inl KeyError
            | Some rows \<Rightarrow>
                scan_cal_data tbl cal_bid rest
                  (if t_name tbl = ''sequences''
                   then seqnumber_of (cd_series_index cal_datum) else seqnumber,
                   Some rows))
      else scan_cal_data tbl cal_bid rest (seqnumber, lookup_rows))"

text \<open>
  The first part of the loop over the tables: where \<^verbatim>\<open>lookup_rows\<close> comes from. Without
  plugin data it is the result of a query on Calibre's database.
\<close>

definition fetch_rows ::
  "calibre_db \<Rightarrow> int \<Rightarrow> table \<Rightarrow> seqnumber \<times> item list option
     \<Rightarrow> error + seqnumber \<times> item list option" where
  "fetch_rows cal_db cal_bid tbl vars =
     (if cal_data cal_db \<noteq> [] then scan_cal_data tbl cal_bid (cal_data cal_db) vars
      else Inr (fst vars,
                Some (live_lookup cal_db
                        (if t_name tbl = ''ebookids'' then ''identifiers'' else t_calname tbl)
                        cal_bid)))"

text \<open>
  \<^verbatim>\<open>name\<close> and \<^verbatim>\<open>extra\<close> of one entry. An entry of the wrong shape for the table
  (which neither \<^verbatim>\<open>get_metadata\<close> nor the queries produce) is a \<^verbatim>\<open>TypeError\<close>.
  \<^verbatim>\<open>EBOOK_SCHEMES.get(lookup_row[0]) or '0'\<close> is the scheme code.
\<close>

definition scheme_code :: "string \<Rightarrow> string" where
  "scheme_code scheme =
     (case EBOOK_SCHEMES scheme of
        None \<Rightarrow> ''0''
      | Some code \<Rightarrow> if code = [] then ''0'' else code)"

definition name_extra :: "string \<Rightarrow> item \<Rightarrow> error + string option \<times> string option" where
  "name_extra tname lookup_row =
     (if tname = ''authors''
      then (case lookup_row of Pair a b \<Rightarrow> Inr (Some a, Some b) | Name _ \<Rightarrow> Inl TypeError)
      else if tname = ''ebookids''
      then (case lookup_row of
              Pair a b \<Rightarrow> Inr (Some b, Some (scheme_code a))
            | Name _ \<Rightarrow> Inl TypeError)
      else (case lookup_row of Name n \<Rightarrow> Inr (n, Some ''extra'') | Pair _ _ \<Rightarrow> Inl TypeError))"

text \<open>
  \<^verbatim>\<open>str(seqnumber)\<close> is written into the second statement as a literal. SQLite reads an
  integer literal outside the 64-bit range as a real number.
\<close>

definition seq_literal :: "int \<Rightarrow> sqlval" where
  "seq_literal n = (if - (2 ^ 63) \<le> n \<and> n < 2 ^ 63 then IntV n else RealV (of_int n))"

text \<open>
  The body of the loop \<^verbatim>\<open>for lookup_row in lookup_rows\<close>. An entry whose name or
  extra is \<^verbatim>\<open>None\<close> or empty is skipped. \<^verbatim>\<open>sql_fil_data\<close> is the name, then
  \<^verbatim>\<open>(extra, name)\<close> for \<^verbatim>\<open>authors\<close> and \<^verbatim>\<open>ebookids\<close> and \<^verbatim>\<open>(name,)\<close> for the
  others, then the timestamp (the text of a number, which holds no backslash: it is
  listed as the number). Both statements go through \<^verbatim>\<open>execute\<close>. For
  \<^verbatim>\<open>sequences\<close>, \<^verbatim>\<open>str(seqnumber)\<close> is part of the second statement, and \<^verbatim>\<open>None\<close>
  there is not a column: once the statement is rendered, \<^verbatim>\<open>sqlite3\<close> raises
  \<^verbatim>\<open>OperationalError\<close>, after the first statement has run.
\<close>

definition ins_lookup_row ::
  "(string \<Rightarrow> error option) \<Rightarrow> table \<Rightarrow> seqnumber \<Rightarrow> string \<Rightarrow> real \<Rightarrow> item \<Rightarrow> database
     \<Rightarrow> error option \<times> database" where
  "ins_lookup_row sub tbl seqnumber md5 timestamp lookup_row db =
     (case name_extra (t_name tbl) lookup_row of
        Inl e \<Rightarrow> (Some e, db)
      | Inr (Some name, Some extra) \<Rightarrow>
          if name = [] \<or> extra = [] then (None, db)
          else
            (let vals = (if t_name tbl = ''authors'' \<or> t_name tbl = ''ebookids''
                         then [TextV extra, TextV name] else [TextV name]);
                 sql_fil_data = TextV name # vals @ [RealV timestamp]
             in case execute sub sql_fil_data (fill_lookups tbl name vals timestamp) db of
                  (Some e, db1) \<Rightarrow> (Some e, db1)
                | (None, db1) \<Rightarrow>
                    if t_name tbl = ''sequences''
                    then (case seqnumber of
                            SeqNone \<Rightarrow>
                              (case execute_raises sub [TextV md5, TextV name] of
                                 Some e \<Rightarrow> (Some e, db1)
                               | None \<Rightarrow> (Some OperationalError, db1))
                          | SeqInt n \<Rightarrow>
                              execute sub [TextV md5, TextV name]
                                (ins_books_links tbl (Some (seq_literal n)) md5 name) db1
                          | SeqFloat x \<Rightarrow>
                              execute sub [TextV md5, TextV name]
                                (ins_books_links tbl (Some (RealV x)) md5 name) db1)
                    else execute sub [TextV md5, TextV name]
                           (ins_books_links tbl None md5 name) db1)
      | Inr _ \<Rightarrow> (None, db))"

fun ins_lookup_rows ::
  "(string \<Rightarrow> error option) \<Rightarrow> table \<Rightarrow> seqnumber \<Rightarrow> string \<Rightarrow> real \<Rightarrow> item list \<Rightarrow> database
     \<Rightarrow> error option \<times> database" where
  "ins_lookup_rows sub tbl seqnumber md5 timestamp [] db = (None, db)"
| "ins_lookup_rows sub tbl seqnumber md5 timestamp (lookup_row # rest) db =
     (case ins_lookup_row sub tbl seqnumber md5 timestamp lookup_row db of
        (Some e, db') \<Rightarrow> (Some e, db')
      | (None, db') \<Rightarrow> ins_lookup_rows sub tbl seqnumber md5 timestamp rest db')"

text \<open>
  The loop \<^verbatim>\<open>for lookup_table in self._lookup_tables\<close>, with the local variables as
  loop state. Reading \<^verbatim>\<open>lookup_rows\<close> before any assignment is an
  \<^verbatim>\<open>UnboundLocalError\<close>. \<open>timestamp\<close> is the reading of the clock.
\<close>

fun ins_tables ::
  "(string \<Rightarrow> error option) \<Rightarrow> calibre_db \<Rightarrow> int \<Rightarrow> string \<Rightarrow> real \<Rightarrow> string list
     \<Rightarrow> seqnumber \<times> item list option \<Rightarrow> database \<Rightarrow> error option \<times> database" where
  "ins_tables sub cal_db cal_bid md5 timestamp [] vars db = (None, db)"
| "ins_tables sub cal_db cal_bid md5 timestamp (lookup_table # rest) vars db =
     (case fetch_rows cal_db cal_bid (Table lookup_table) vars of
        Inl e \<Rightarrow> (Some e, db)
      | Inr (seqnumber, None) \<Rightarrow> (Some UnboundLocalError, db)
      | Inr (seqnumber, Some lookup_rows) \<Rightarrow>
          (case ins_lookup_rows sub (Table lookup_table) seqnumber md5 timestamp lookup_rows db of
             (Some e, db') \<Rightarrow> (Some e, db')
           | (None, db') \<Rightarrow>
               ins_tables sub cal_db cal_bid md5 timestamp rest (seqnumber, Some lookup_rows) db'))"

definition ins_book_to_link_tables ::
  "(string \<Rightarrow> error option) \<Rightarrow> calibre_db \<Rightarrow> int \<Rightarrow> string \<Rightarrow> real \<Rightarrow> database
     \<Rightarrow> error option \<times> database" where
  "ins_book_to_link_tables sub cal_db cal_bid md5 timestamp db =
     ins_tables sub cal_db cal_bid md5 timestamp LOOKUP_TABLES (SeqNone, None) db"

subsection \<open>\<^verbatim>\<open>KyBookDB._ins_book_to_reviews\<close>\<close>

text \<open>
  \<^verbatim>\<open>INSERT OR REPLACE INTO reviews (bid, rating, timestamp) VALUES((SELECT bid FROM books WHERE md5 = ?), ?, ?)\<close>.
  With a \<^verbatim>\<open>NULL\<close> book id the outcome depends on the declaration of the column. The
  statement can fail on a constraint, so it is a function to an outcome; the column
  \<^verbatim>\<open>timestamp\<close> is taken to store the number, as in the lookup tables.
\<close>

definition ins_review :: "bid_decl \<Rightarrow> sqlval \<Rightarrow> sqlval \<Rightarrow> real \<Rightarrow> database \<Rightarrow> error option \<times> database" where
  "ins_review decl bid rating timestamp db =
     (let new = (\<lambda>_. Null)(''bid'' := bid, ''rating'' := rating, ''timestamp'' := RealV timestamp);
          rows = db ''reviews''
      in if bid = Null
         then (case decl of
                 BidRowid \<Rightarrow> (None, db(''reviews'' := insert_or_replace ''bid'' [] new rows))
               | BidNotNull \<Rightarrow> (Some IntegrityError, db)
               | BidNullable \<Rightarrow> (None, db(''reviews'' := rows @ [new])))
         else (None, db(''reviews'' := filter (\<lambda>r. \<not> sql_eq (r ''bid'') bid) rows @ [new])))"

text \<open>
  The rating is that of the last plugin record with the book's id (\<^verbatim>\<open>rating\<close> is
  unbound when there is none). Without plugin data \<^verbatim>\<open>rating\<close> is the list of rows of a
  query; a list that is not empty is then bound as a parameter, which \<^verbatim>\<open>sqlite3\<close>
  refuses with \<^verbatim>\<open>InterfaceError\<close>. With plugin data the statement goes through
  \<^verbatim>\<open>execute\<close> with the parameters \<^verbatim>\<open>(md5, rating, timestamp)\<close>, and runs only if
  binding and rendering them raise nothing.
\<close>

definition ins_book_to_reviews ::
  "(string \<Rightarrow> error option) \<Rightarrow> calibre_db \<Rightarrow> int \<Rightarrow> string \<Rightarrow> real \<Rightarrow> bid_decl \<Rightarrow> database
     \<Rightarrow> error option \<times> database" where
  "ins_book_to_reviews sub cal_db cal_bid md5 timestamp decl db =
     (if cal_data cal_db \<noteq> []
      then (case filter (\<lambda>d. cd_id d = cal_bid) (cal_data cal_db) of
              [] \<Rightarrow> (Some UnboundLocalError, db)
            | d # ds \<Rightarrow>
                (case cd_rating (last (d # ds)) of
                   None \<Rightarrow> (None, db)
                 | Some rating \<Rightarrow>
                     if rating = 0 then (None, db)
                     else (case execute_raises sub [TextV md5, IntV rating, RealV timestamp] of
                             Some e \<Rightarrow> (Some e, db)
                           | None \<Rightarrow> ins_review decl (sel_bid db md5) (IntV rating) timestamp db)))
      else if live_ratings cal_db cal_bid = 0 then (None, db)
      else (Some InterfaceError, db))"

subsection \<open>\<^verbatim>\<open>KyBookDB.update\<close>\<close>

text \<open>
  \<^verbatim>\<open>published\<close>: \<^verbatim>\<open>row['pubdate']\<close> raises \<^verbatim>\<open>KeyError\<close> for a missing key, and
  \<^verbatim>\<open>None[:10]\<close> is a \<^verbatim>\<open>TypeError\<close>.
\<close>

definition published_of :: "pubdate \<Rightarrow> error + string" where
  "published_of p =
     (case p of
        NoPubdate \<Rightarrow> Inl KeyError
      | PubdateNone \<Rightarrow> Inl TypeError
      | PubdateDatetime isoformat \<Rightarrow> Inr (take 10 isoformat)
      | PubdateStr s \<Rightarrow> Inr (take 10 s))"

text \<open>\<^verbatim>\<open>row['id']\<close> and \<^verbatim>\<open>row['title']\<close>, which both kinds of row have.\<close>

definition row_id :: "row \<Rightarrow> int" where
  "row_id row = (case row of DictRow d \<Rightarrow> cd_id d | SqliteRow l \<Rightarrow> lr_id l)"

definition row_title :: "row \<Rightarrow> string" where
  "row_title row = (case row of DictRow d \<Rightarrow> cd_title d | SqliteRow l \<Rightarrow> lr_title l)"

text \<open>
  \<^verbatim>\<open>update\<close>. An \<^verbatim>\<open>sqlite3.Row\<close> has no method \<^verbatim>\<open>get\<close>, so for a row of the live
  query \<^verbatim>\<open>row.get('pubdate', '')\<close> raises \<^verbatim>\<open>AttributeError\<close>. \<open>open_cover\<close> is
  the file system as \<^verbatim>\<open>_get_thumb\<close> reads it, \<open>timestamp\<close> the reading of the clock,
  \<open>sub\<close> the template parser of \<^verbatim>\<open>re.sub\<close> as \<^verbatim>\<open>execute\<close> meets it.
  The result is the exception that leaves the function, if any, and the database as the
  connection then sees it. \<^verbatim>\<open>aspectratio\<close> is bound as a real number (the integer 0
  of the failure case compares equal to the real 0), \<^verbatim>\<open>coverhash\<close> is \<^verbatim>\<open>None\<close>.
\<close>

definition update ::
  "(string \<Rightarrow> error option) \<Rightarrow> (cover_location \<Rightarrow> image option) \<Rightarrow> real \<Rightarrow> calibre_db \<Rightarrow> row
     \<Rightarrow> string \<Rightarrow> kybook_db \<Rightarrow> error option \<times> kybook_db" where
  "update sub open_cover timestamp cal_db row md5 self =
     (case row of
        SqliteRow _ \<Rightarrow> (Some AttributeError, self)
      | DictRow d \<Rightarrow>
          (case published_of (cd_pubdate d) of
             Inl e \<Rightarrow> (Some e, self)
           | Inr published \<Rightarrow>
               (let b_id = row_id row;
                    title = row_title row;
                    language = (case cd_language d of None \<Rightarrow> '''' | Some l \<Rightarrow> l);
                    annotation = (if kd_remove_html self
                                  then TextV (remove_html_markup (cd_comments d))
                                  else (case cd_comments d of None \<Rightarrow> Null | Some c \<Rightarrow> TextV c))
                in case get_thumb open_cover d of
                     Inl e \<Rightarrow> (Some e, self)
                   | Inr (thumbnail, aspectratio) \<Rightarrow>
                       (let update_data = [TextV title, TextV published, TextV language, annotation,
                                           BlobV thumbnail, RealV aspectratio, Null, TextV md5]
                        in case execute sub update_data
                                  (update_metadata (TextV title) (TextV published) (TextV language)
                                     annotation (BlobV thumbnail) (RealV aspectratio) Null md5)
                                  (kd_tables self) of
                             (Some e, db1) \<Rightarrow> (Some e, self\<lparr>kd_tables := db1\<rparr>)
                           | (None, db1) \<Rightarrow>
                        (case del_book_from_link_tables sub md5 db1 of
                             (Some e, db2) \<Rightarrow> (Some e, self\<lparr>kd_tables := db2\<rparr>)
                           | (None, db2) \<Rightarrow>
                        (case del_book_from_reviews sub md5 db2 of
                             (Some e, db3) \<Rightarrow> (Some e, self\<lparr>kd_tables := db3\<rparr>)
                           | (None, db3) \<Rightarrow>
                        (case ins_book_to_link_tables sub cal_db b_id md5 timestamp db3 of
                             (Some e, db4) \<Rightarrow> (Some e, self\<lparr>kd_tables := db4\<rparr>)
                           | (None, db4) \<Rightarrow>
                        (case ins_book_to_reviews sub cal_db b_id md5 timestamp
                                (kd_reviews_bid self) db4 of
                           (r, db5) \<Rightarrow> (r, self\<lparr>kd_tables := db5\<rparr>)))))))))"

subsection \<open>\<^verbatim>\<open>KyBookDB.clean_up\<close>\<close>

text \<open>
  \<^verbatim>\<open>del_from_lookups_sql\<close>:
  \<^verbatim>\<open>DELETE FROM {name} WHERE {xid} NOT IN (SELECT {xid} FROM books_{name})\<close>. The first
  component of the result is the statement's row count.
\<close>

definition del_from_lookups :: "table \<Rightarrow> database \<Rightarrow> nat \<times> database" where
  "del_from_lookups tbl db =
     (let used = map (\<lambda>l. l (t_xid tbl)) (db (''books_'' @ t_name tbl));
          rows = db (t_name tbl);
          kept = filter (\<lambda>r. \<not> sql_not_in (r (t_xid tbl)) used) rows
      in (length rows - length kept, db(t_name tbl := kept)))"

fun clean_tables :: "string list \<Rightarrow> database \<Rightarrow> nat list \<times> database" where
  "clean_tables [] db = ([], db)"
| "clean_tables (lookup_table # rest) db =
     (case del_from_lookups (Table lookup_table) db of
        (n, db') \<Rightarrow> (case clean_tables rest db' of (ns, db'') \<Rightarrow> (n # ns, db'')))"

definition clean_up :: "database \<Rightarrow> nat list \<times> database" where
  "clean_up db = clean_tables LOOKUP_TABLES db"

subsection \<open>Auxiliary notions for the properties\<close>

text \<open>
  A row of a lookup table is referenced when the \<^verbatim>\<open>DELETE\<close> of \<^verbatim>\<open>clean_up\<close> leaves
  it in place.
\<close>

definition referenced :: "string \<Rightarrow> database \<Rightarrow> sqlrow \<Rightarrow> bool" where
  "referenced t db r =
     (\<not> sql_not_in (r (t_xid (Table t))) (map (\<lambda>l. l (t_xid (Table t))) (db (''books_'' @ t))))"

subsection \<open>Example data\<close>

text \<open>
  The book of the spec's scenario as the plugin supplies it, the \<^verbatim>\<open>CalibreDB\<close> holding
  it after \<^verbatim>\<open>get_metadata\<close>, and a KyBook 3 database with one book whose file hashes
  to \<^verbatim>\<open>H1\<close>.
\<close>

definition dune :: cal_datum where
  "dune = \<lparr>cd_id = 7, cd_title = ''Dune'', cd_path = '''', cd_paths = [''/lib/Dune/dune.epub''],
     cd_pubdate = PubdateStr ''1965-08-01T00:00:00+00:00'', cd_comments = Some ''<p>Arrakis</p>'',
     cd_author_sort_map = [(''Frank Herbert'', ''Herbert, Frank'')],
     cd_series = Some ''Dune'', cd_series_index = Some 1,
     cd_tags = [''sci-fi'', ''classic''], cd_identifiers = [(''isbn'', ''9780441013593'')],
     cd_languages = [''eng''], cd_publisher = None, cd_rating = None,
     cd_authors = None, cd_sequences = None, cd_subjects = None, cd_ebookids = None,
     cd_language = None, cd_publishers = None\<rparr>"

definition dune_db :: calibre_db where
  "dune_db = snd (get_metadata \<lparr>cal_data = [dune], live_books = [],
                                 live_lookup = (\<lambda>_ _. []), live_ratings = (\<lambda>_. 0)\<rparr>)"

definition dune_row :: row where
  "dune_row = hd (fst (get_metadata \<lparr>cal_data = [dune], live_books = [],
                                      live_lookup = (\<lambda>_ _. []), live_ratings = (\<lambda>_. 0)\<rparr>))"

definition library :: kybook_db where
  "library = \<lparr>kd_remove_html = True, kd_reviews_bid = BidRowid,
     kd_tables = (\<lambda>_. [])
       (''books'' := [(\<lambda>_. Null)(''bid'' := IntV 3, ''md5'' := TextV ''H1'')],
        ''metadata'' := [(\<lambda>_. Null)(''bid'' := IntV 3, ''title'' := TextV ''dune.epub'')])\<rparr>"

section \<open>Properties\<close>

subsection \<open>HTML stripping\<close>

lemma markup_step_inv: "markup_inv st \<Longrightarrow> markup_inv (markup_step st c)"
  by (cases st) (auto simp: markup_inv_def)

lemma markup_loop_inv: "markup_inv st \<Longrightarrow> markup_inv (markup_loop st cs)"
  by (induction cs arbitrary: st) (simp_all add: markup_step_inv)

lemma markup_inv_init: "markup_inv (False, False, '''')"
  by (simp add: markup_inv_def)

text \<open>
  C7. \<^verbatim>\<open>_remove_html_markup\<close> applied to the string
  \<^verbatim>\<open><p>Hello <b class="x">world</b></p>\<close> returns exactly \<^verbatim>\<open>Hello world\<close>.
\<close>

theorem remove_html_markup_hello_world:
  \<open>remove_html_markup (Some (''<p>Hello <b class='' @ [CHR 0x22] @ ''x'' @ [CHR 0x22] @ ''>world</b></p>''))
     = ''Hello world''\<close>
  by (simp add: remove_html_markup_def)

text \<open>
  C10. For every input (a string or \<^verbatim>\<open>None\<close>), the output of
  \<^verbatim>\<open>_remove_html_markup\<close> contains neither the character \<^verbatim>\<open><\<close> nor the
  character \<^verbatim>\<open>>\<close>.
\<close>

theorem remove_html_markup_no_angle_brackets:
  "CHR ''<'' \<notin> set (remove_html_markup string) \<and> CHR ''>'' \<notin> set (remove_html_markup string)"
proof (cases string)
  case None
  then show ?thesis by (simp add: remove_html_markup_def)
next
  case (Some s)
  obtain tag quote out where st: "markup_loop (False, False, '''') s = (tag, quote, out)"
    by (cases "markup_loop (False, False, '''') s") auto
  have "markup_inv (markup_loop (False, False, '''') s)"
    by (rule markup_loop_inv [OF markup_inv_init])
  with st have "CHR ''<'' \<notin> set out \<and> CHR ''>'' \<notin> set out"
    by (simp add: markup_inv_def)
  with Some st show ?thesis
    by (simp add: remove_html_markup_def)
qed

subsection \<open>Plugin records and thumbnails\<close>

text \<open>
  C5 (the code departs from the claim). For a plugin record whose \<^verbatim>\<open>languages\<close> list
  is \<^verbatim>\<open>['eng']\<close>, \<^verbatim>\<open>get_metadata\<close> sets \<^verbatim>\<open>language\<close> to the empty string, not to
  \<^verbatim>\<open>en\<close>: the test of the source is whether the literal \<^verbatim>\<open>'language'\<close> is an
  element of the list.
\<close>

theorem get_metadata_language_eng:
  "map (\<lambda>r. case r of DictRow d' \<Rightarrow> cd_language d' | SqliteRow _ \<Rightarrow> None)
     (fst (get_metadata (cal_db\<lparr>cal_data := [d\<lparr>cd_languages := [''eng'']\<rparr>]\<rparr>))) = [Some '''']"
  by (simp add: get_metadata_def reshape_datum_def)

text \<open>
  C2 (the code departs from the claim). A cover of 148 by 295 pixels has the ratio
  \<open>295/148 > 105/74\<close>, but the integer division \<^verbatim>\<open>height / width\<close> gives 1, so the
  picture is reduced by width: the thumbnail is 74 by 147, higher than 105.
\<close>

theorem get_thumb_148_295:
  "get_thumb (\<lambda>_. Some (148, 295)) (d\<lparr>cd_path := ''Frank Herbert/Dune (1)''\<rparr>)
     = Inr (Jpeg 74 147, 147 / 74)
   \<and> \<not> (147::nat) \<le> THUMB_HEIGHT \<and> (295::real) / 148 > 105 / 74"
  by (simp add: get_thumb_def cover_file_def reduce_image_size_def resize_def Let_def
        THUMB_WIDTH_def THUMB_HEIGHT_def)

subsection \<open>The HTTP client\<close>

lemma send_trace:
  "send srv m u pl s = (out, s') \<Longrightarrow>
     w_trace s' = w_trace s @ [Request m u pl out] \<and> w_files s' = w_files s \<and> srv (w_requests s) = out"
  by (auto simp: send_def emit_def Let_def)

lemma post_multipart_retry:
  "post_multipart srv ''/upload'' f fl tries s = (resp, s') \<Longrightarrow>
     \<exists>new. w_trace s' = w_trace s @ new \<and> retry_ok tries new resp \<and> w_files s' = w_files s"
proof (induction tries arbitrary: s)
  case 0
  then show ?case by (simp add: retry_ok_def)
next
  case (Suc tries)
  obtain out s1 where snd: "send srv ''POST'' ''/upload'' (Multipart f fl) s = (out, s1)"
    by (cases "send srv ''POST'' ''/upload'' (Multipart f fl) s") auto
  note tr = send_trace [OF snd]
  show ?case
  proof (cases out)
    case Raises
    with Suc.prems snd have "post_multipart srv ''/upload'' f fl tries (emit (Sleep 1) s1) = (resp, s')"
      by simp
    from Suc.IH [OF this] obtain new where
      n: "w_trace s' = w_trace (emit (Sleep 1) s1) @ new" "retry_ok tries new resp"
         "w_files s' = w_files (emit (Sleep 1) s1)"
      by blast
    let ?new = "Request ''POST'' ''/upload'' (Multipart f fl) Raises # Sleep 1 # new"
    have "w_trace s' = w_trace s @ ?new"
      using n(1) tr Raises by (simp add: emit_def)
    moreover have "retry_ok (Suc tries) ?new resp"
      using n(2) by (auto simp: retry_ok_def is_upload_def is_failed_upload_def is_sleep_def)
    moreover have "w_files s' = w_files s"
      using n(3) tr by (simp add: emit_def)
    ultimately show ?thesis by blast
  next
    case (Reply r)
    with Suc.prems snd have "resp = Some r" "s' = s1" by simp_all
    then show ?thesis
      using tr Reply
      by (intro exI [of _ "[Request ''POST'' ''/upload'' (Multipart f fl) (Reply r)]"])
         (simp add: retry_ok_def is_upload_def is_failed_upload_def is_sleep_def)
  qed
qed

lemma failed_is_upload: "is_failed_upload e \<Longrightarrow> is_upload e"
  by (auto simp: is_failed_upload_def is_upload_def split: event.splits)

lemma quiet_failed: "quiet evs \<Longrightarrow> filter is_failed_upload evs = []"
  by (auto simp: quiet_def filter_empty_conv dest: failed_is_upload)

lemma quiet_Cons: "quiet (e # es) = (\<not> is_upload e \<and> \<not> is_sleep e \<and> quiet es)"
  by (auto simp: quiet_def)

lemma quiet_Nil: "quiet []"
  by (simp add: quiet_def)

lemma quiet_append: "quiet (xs @ ys) = (quiet xs \<and> quiet ys)"
  by (auto simp: quiet_def)

lemma pauses_follow_quiet: "quiet evs \<Longrightarrow> pauses_follow evs"
  by (induction evs) (auto simp: quiet_Cons dest: failed_is_upload)

lemma stops_at_success_quiet: "quiet evs \<Longrightarrow> stops_at_success evs"
  by (induction evs) (auto simp: quiet_Cons)

lemma pauses_follow_pre: "quiet pre \<Longrightarrow> pauses_follow xs \<Longrightarrow> pauses_follow (pre @ xs)"
  by (induction pre) (auto simp: quiet_Cons dest: failed_is_upload)

lemma pauses_follow_post:
  "pauses_follow xs \<Longrightarrow> quiet post \<Longrightarrow> (xs \<noteq> [] \<longrightarrow> \<not> is_failed_upload (last xs))
     \<Longrightarrow> pauses_follow (xs @ post)"
proof (induction xs)
  case Nil
  then show ?case by (simp add: pauses_follow_quiet)
next
  case (Cons e es)
  then show ?case by (cases es) (auto split: if_splits)
qed

lemma stops_at_success_pre: "quiet pre \<Longrightarrow> stops_at_success xs \<Longrightarrow> stops_at_success (pre @ xs)"
  by (induction pre) (auto simp: quiet_Cons)

lemma stops_at_success_post: "stops_at_success xs \<Longrightarrow> quiet post \<Longrightarrow> stops_at_success (xs @ post)"
  by (induction xs) (auto simp: stops_at_success_quiet quiet_def)

lemma http_conn_trace:
  "http_conn srv m u pl s = (r, s') \<Longrightarrow>
     w_trace s' = w_trace s @ [Request m u pl (srv (w_requests s))] \<and> w_files s' = w_files s"
  by (auto simp: http_conn_def send_def emit_def Let_def split: outcome.splits)

lemma file_exists_trace:
  "file_exists srv p s = (r, s') \<Longrightarrow>
     \<exists>pl out. w_trace s' = w_trace s @ [Request ''HEAD'' (''/download?path='' @ p) pl out]
        \<and> w_files s' = w_files s"
  by (auto simp: file_exists_def split: prod.splits sum.splits dest!: http_conn_trace)

lemma delete_path_trace:
  "delete_path srv p s = (r, s') \<Longrightarrow>
     \<exists>pl out. w_trace s' = w_trace s @ [Request ''POST'' ''/delete'' pl out] \<and> w_files s' = w_files s"
  by (auto simp: delete_path_def split: prod.splits sum.splits dest!: http_conn_trace)

lemma delete_existing_trace:
  assumes "delete_existing srv p s = (r, s')"
  shows "\<exists>pre. w_trace s' = w_trace s @ pre \<and> quiet pre"
proof -
  obtain fr sf where fe: "file_exists srv p s = (fr, sf)"
    by (cases "file_exists srv p s") auto
  from file_exists_trace [OF fe] obtain pl out where
    t1: "w_trace sf = w_trace s @ [Request ''HEAD'' (''/download?path='' @ p) pl out]"
    by auto
  have q1: "quiet [Request ''HEAD'' (''/download?path='' @ p) pl out]"
    by (simp add: quiet_def is_upload_def is_sleep_def)
  show ?thesis
  proof (cases "fr = Inr True")
    case False
    with assms fe have "s' = sf"
      by (auto simp: delete_existing_def split: sum.splits bool.splits)
    with t1 q1 show ?thesis by blast
  next
    case True
    obtain dr sd where dp: "delete_path srv p sf = (dr, sd)"
      by (cases "delete_path srv p sf") auto
    from delete_path_trace [OF dp] obtain pl' out' where
      t2: "w_trace sd = w_trace sf @ [Request ''POST'' ''/delete'' pl' out']"
      by auto
    from assms fe True dp have "s' = sd"
      by (auto simp: delete_existing_def split: sum.splits)
    with t1 t2 have "w_trace s' = w_trace s @
        [Request ''HEAD'' (''/download?path='' @ p) pl out, Request ''POST'' ''/delete'' pl' out']"
      by simp
    moreover have "quiet [Request ''HEAD'' (''/download?path='' @ p) pl out,
         Request ''POST'' ''/delete'' pl' out']"
      by (simp add: quiet_def is_upload_def is_sleep_def)
    ultimately show ?thesis by blast
  qed
qed

lemma upload_file_shape:
  assumes "upload_file srv local_file remote_dir remote_file del_existing s = (r, s')"
  shows "\<exists>pre new post. w_trace s' = w_trace s @ pre @ new @ post \<and> quiet pre \<and> quiet post \<and>
           ((new = [] \<and> post = []) \<or>
            (\<exists>resp. retry_ok 5 new resp \<and> r = Inr () \<and>
               post = [LogInfo (case resp of None \<Rightarrow> ''Failed!'' | Some x \<Rightarrow> rs_reason x)]))"
proof (cases "w_files s local_file")
  case None
  with assms have "s' = s" by (simp add: upload_file_def)
  then show ?thesis
    by (intro exI [of _ "[]"]) (simp add: quiet_Nil)
next
  case (Some contents)
  define rf where "rf = remote_name local_file remote_file"
  obtain deleted s1 where del:
    "(if del_existing then delete_existing srv (remote_dir @ ''/'' @ rf) s else (Inr (), s))
       = (deleted, s1)"
    by (cases "if del_existing then delete_existing srv (remote_dir @ ''/'' @ rf) s else (Inr (), s)") auto
  have "\<exists>pre. w_trace s1 = w_trace s @ pre \<and> quiet pre"
  proof (cases del_existing)
    case False
    with del have "s1 = s" by simp
    then show ?thesis by (intro exI [of _ "[]"]) (simp add: quiet_Nil)
  next
    case True
    with del have "delete_existing srv (remote_dir @ ''/'' @ rf) s = (deleted, s1)" by simp
    then show ?thesis by (rule delete_existing_trace)
  qed
  then obtain pre where pre: "w_trace s1 = w_trace s @ pre" "quiet pre" by blast
  from assms Some have up:
    "(case (deleted, s1) of
        (Inl e, s1) \<Rightarrow> (Inl e, s1)
      | (Inr _, s1) \<Rightarrow>
          (let s2 = emit (LogInfo (''Uploading '' @ local_file @ '' to '' @ remote_dir @ rf)) s1
           in case post_multipart srv ''/upload'' [(''path'', remote_dir)] [(''files[]'', rf, contents)] 5 s2 of
                (Some resp, s3) \<Rightarrow> (Inr (), emit (LogInfo (rs_reason resp)) s3)
              | (None, s3) \<Rightarrow> (Inr (), emit (LogInfo ''Failed!'') s3))) = (r, s')"
    unfolding upload_file_def Let_def rf_def del [symmetric] by simp
  show ?thesis
  proof (cases deleted)
    case (Inl e)
    with up have "s' = s1" by simp
    with pre show ?thesis
      by (intro exI [of _ pre] exI [of _ "[]"]) (simp add: quiet_Nil)
  next
    case (Inr u)
    define s2 where "s2 = emit (LogInfo (''Uploading '' @ local_file @ '' to '' @ remote_dir @ rf)) s1"
    obtain resp s3 where pm:
      "post_multipart srv ''/upload'' [(''path'', remote_dir)] [(''files[]'', rf, contents)] 5 s2 = (resp, s3)"
      by (cases "post_multipart srv ''/upload'' [(''path'', remote_dir)] [(''files[]'', rf, contents)] 5 s2") auto
    from post_multipart_retry [OF pm] obtain new where
      new: "w_trace s3 = w_trace s2 @ new" "retry_ok 5 new resp"
      by blast
    let ?msg = "LogInfo (case resp of None \<Rightarrow> ''Failed!'' | Some x \<Rightarrow> rs_reason x)"
    from up Inr have
      "(case post_multipart srv ''/upload'' [(''path'', remote_dir)] [(''files[]'', rf, contents)] 5 s2 of
          (Some resp, s3) \<Rightarrow> (Inr (), emit (LogInfo (rs_reason resp)) s3)
        | (None, s3) \<Rightarrow> (Inr (), emit (LogInfo ''Failed!'') s3)) = (r :: error + unit, s')"
      unfolding s2_def Let_def by (simp only: prod.case sum.case)
    then have res: "r = Inr ()" "s' = emit ?msg s3"
      unfolding pm by (cases resp; simp)+
    let ?pre = "pre @ [LogInfo (''Uploading '' @ local_file @ '' to '' @ remote_dir @ rf)]"
    have "w_trace s' = w_trace s @ ?pre @ new @ [?msg]"
      using res new pre by (simp add: emit_def s2_def)
    moreover have "quiet ?pre"
      using pre(2) by (simp add: quiet_append quiet_def is_upload_def is_sleep_def)
    moreover have "quiet [?msg]"
      by (simp add: quiet_def is_upload_def is_sleep_def)
    ultimately show ?thesis
      using new(2) res(1) by blast
  qed
qed

lemma upload_file_bounds:
  assumes "upload_file srv local_file remote_dir remote_file del_existing s = (r, s')"
    and "new = drop (length (w_trace s)) (w_trace s')"
  shows "length (filter is_upload new) \<le> 5 \<and>
         pauses_follow new \<and>
         length (filter is_sleep new) = length (filter is_failed_upload new) \<and>
         stops_at_success new \<and>
         (length (filter is_failed_upload new) = 5 \<longrightarrow> r = Inr () \<and> last new = LogInfo ''Failed!'')"
proof -
  from upload_file_shape [OF assms(1)] obtain pre mid post where
    sh: "w_trace s' = w_trace s @ pre @ mid @ post" "quiet pre" "quiet post"
        "(mid = [] \<and> post = []) \<or>
         (\<exists>resp. retry_ok 5 mid resp \<and> r = Inr () \<and>
            post = [LogInfo (case resp of None \<Rightarrow> ''Failed!'' | Some x \<Rightarrow> rs_reason x)])"
    by blast
  have new: "new = pre @ mid @ post"
    using assms(2) sh(1) by simp
  from sh(4) show ?thesis
  proof
    assume "mid = [] \<and> post = []"
    then have "new = pre" using new by simp
    with sh(2) show ?thesis
      by (simp add: pauses_follow_quiet stops_at_success_quiet quiet_failed) (simp add: quiet_def)
  next
    assume "\<exists>resp. retry_ok 5 mid resp \<and> r = Inr () \<and>
            post = [LogInfo (case resp of None \<Rightarrow> ''Failed!'' | Some x \<Rightarrow> rs_reason x)]"
    then obtain resp where
      r: "retry_ok 5 mid resp" "r = Inr ()"
         "post = [LogInfo (case resp of None \<Rightarrow> ''Failed!'' | Some x \<Rightarrow> rs_reason x)]"
      by blast
    have up: "filter is_upload new = filter is_upload mid"
      using new sh(2,3) by (simp add: quiet_def)
    have sl: "filter is_sleep new = filter is_sleep mid"
      using new sh(2,3) by (simp add: quiet_def)
    have fa: "filter is_failed_upload new = filter is_failed_upload mid"
      using new sh(2,3) by (simp add: quiet_failed)
    have pf: "pauses_follow new"
      unfolding new using r(1) sh(2,3)
      by (intro pauses_follow_pre pauses_follow_post) (simp_all add: retry_ok_def)
    have st: "stops_at_success new"
      unfolding new using r(1) sh(2,3)
      by (intro stops_at_success_pre stops_at_success_post) (simp_all add: retry_ok_def)
    have la: "length (filter is_failed_upload mid) = 5 \<Longrightarrow> last new = LogInfo ''Failed!''"
      using r(1,3) new by (auto simp: retry_ok_def)
    show ?thesis
      using up sl fa pf st la r(1,2) by (simp add: retry_ok_def)
  qed
qed

lemma raising_0: "raising srv n 0 = 0"
  by (simp add: raising_def)

lemma raising_Suc:
  "raising srv n (Suc tries) = (if srv n = Raises then Suc (raising srv (Suc n) tries) else 0)"
proof -
  have "[n ..< n + Suc tries] = n # [Suc n ..< Suc n + tries]"
    by (simp add: upt_conv_Cons del: upt_Suc)
  then show ?thesis
    by (simp add: raising_def del: upt_Suc)
qed

lemma raising_le: "raising srv n tries \<le> tries"
  unfolding raising_def by (rule order_trans [OF length_takeWhile_le]) simp

lemma retried_Suc:
  "retried pl (Suc k) = Request ''POST'' ''/upload'' pl Raises # Sleep 1 # retried pl k"
  by (simp add: retried_def)

lemma post_multipart_exact:
  "post_multipart srv ''/upload'' f fl tries s =
     (if raising srv (w_requests s) tries < tries
      then (case srv (w_requests s + raising srv (w_requests s) tries) of
              Reply resp \<Rightarrow> Some resp | Raises \<Rightarrow> None)
      else None,
      s\<lparr>w_requests := w_requests s + min (Suc (raising srv (w_requests s) tries)) tries,
        w_trace := w_trace s @ retried (Multipart f fl) (raising srv (w_requests s) tries) @
                     (if raising srv (w_requests s) tries < tries
                      then [Request ''POST'' ''/upload'' (Multipart f fl)
                              (srv (w_requests s + raising srv (w_requests s) tries))]
                      else [])\<rparr>)"
proof (induction tries arbitrary: s)
  case 0
  show ?case by (simp add: raising_0 retried_def)
next
  case (Suc tries)
  show ?case
  proof (cases "srv (w_requests s)")
    case Raises
    then show ?thesis
      by (simp add: send_def emit_def Let_def Suc.IH raising_Suc retried_Suc)
  next
    case (Reply resp)
    then show ?thesis
      by (simp add: send_def emit_def Let_def raising_Suc retried_def)
  qed
qed


lemma upload_file_reached:
  assumes "w_files s local_file = Some contents"
    and "(if del_existing
          then delete_existing srv (remote_dir @ ''/'' @ remote_name local_file remote_file) s
          else (Inr (), s)) = (Inr (), s1)"
  shows "upload_file srv local_file remote_dir remote_file del_existing s =
     (Inr (),
      s1\<lparr>w_requests := w_requests s1 + min (Suc (raising srv (w_requests s1) 5)) 5,
         w_trace := w_trace s1 @
           LogInfo (''Uploading '' @ local_file @ '' to '' @ remote_dir @ remote_name local_file remote_file) #
           retried (Multipart [(''path'', remote_dir)]
                      [(''files[]'', remote_name local_file remote_file, contents)])
             (raising srv (w_requests s1) 5) @
           (if raising srv (w_requests s1) 5 < 5
            then [Request ''POST'' ''/upload''
                    (Multipart [(''path'', remote_dir)]
                       [(''files[]'', remote_name local_file remote_file, contents)])
                    (srv (w_requests s1 + raising srv (w_requests s1) 5)),
                  LogInfo (reason_of (srv (w_requests s1 + raising srv (w_requests s1) 5)))]
            else [LogInfo ''Failed!''])\<rparr>)"
proof -
  define k where "k = raising srv (w_requests s1) 5"
  have not_raises: "srv (w_requests s1 + k) \<noteq> Raises" if "k < 5"
  proof -
    have "k < length [w_requests s1 ..< w_requests s1 + 5]" using that by simp
    have "\<not> (\<lambda>i. srv i = Raises) ([w_requests s1 ..< w_requests s1 + 5] ! k)"
      unfolding k_def raising_def
      by (rule nth_length_takeWhile) (use that in \<open>simp add: k_def raising_def\<close>)
    then show ?thesis using that by simp
  qed
  show ?thesis
    unfolding upload_file_def Let_def assms(1) option.case assms(2) prod.case sum.case
      post_multipart_exact
    using not_raises
    by (cases "srv (w_requests s1 + k)")
       (auto simp: emit_def k_def [symmetric] reason_of_def min_def)
qed


lemma raising_always: "raising (\<lambda>_. Raises) n tries = tries"
  by (simp add: raising_def takeWhile_eq_all_conv [THEN iffD2])

text \<open>
  C3. For every call of \<^verbatim>\<open>upload_file\<close>, whatever the server, the file system and the
  arguments: of the events \<open>new\<close> that the call adds, at most 5 are \<^verbatim>\<open>POST /upload\<close>
  attempts; every attempt that raised is directly followed by \<^verbatim>\<open>time.sleep(1)\<close>, and
  there are no other pauses; no attempt follows one that got a response; and if five
  attempts raised, the call returns normally (no exception leaves it) after logging
  \<^verbatim>\<open>Failed!\<close>. Moreover, once the file is read and the optional deletion has passed
  (leaving the state \<open>s1\<close>), the call is determined by the server: with \<open>k\<close> the
  number of requests in a row that raise, from the next one on and at most 5, the call
  makes \<open>k\<close> attempts that raise, each followed by a pause of one second, then, if
  \<open>k < 5\<close>, one more attempt, whose answer ends the call with its reason logged, and
  otherwise no further attempt and the log line \<^verbatim>\<open>Failed!\<close>; in both cases it
  returns without an exception.
\<close>

theorem upload_file_retries:
  assumes "upload_file srv local_file remote_dir remote_file del_existing s = (r, s')"
    and "new = drop (length (w_trace s)) (w_trace s')"
  shows "length (filter is_upload new) \<le> 5 \<and>
         pauses_follow new \<and>
         length (filter is_sleep new) = length (filter is_failed_upload new) \<and>
         stops_at_success new \<and>
         (length (filter is_failed_upload new) = 5 \<longrightarrow> r = Inr () \<and> last new = LogInfo ''Failed!'') \<and>
         (\<forall>contents s1.
            w_files s local_file = Some contents \<longrightarrow>
            (if del_existing
             then delete_existing srv (remote_dir @ ''/'' @ remote_name local_file remote_file) s
             else (Inr (), s)) = (Inr (), s1) \<longrightarrow>
            r = Inr () \<and>
            s' = s1\<lparr>w_requests := w_requests s1 + min (Suc (raising srv (w_requests s1) 5)) 5,
                    w_trace := w_trace s1 @
                      LogInfo (''Uploading '' @ local_file @ '' to '' @ remote_dir @
                               remote_name local_file remote_file) #
                      retried (Multipart [(''path'', remote_dir)]
                                 [(''files[]'', remote_name local_file remote_file, contents)])
                        (raising srv (w_requests s1) 5) @
                      (if raising srv (w_requests s1) 5 < 5
                       then [Request ''POST'' ''/upload''
                               (Multipart [(''path'', remote_dir)]
                                  [(''files[]'', remote_name local_file remote_file, contents)])
                               (srv (w_requests s1 + raising srv (w_requests s1) 5)),
                             LogInfo (reason_of (srv (w_requests s1 + raising srv (w_requests s1) 5)))]
                       else [LogInfo ''Failed!''])\<rparr>)"
proof -
  note bounds = upload_file_bounds [OF assms]
  have "r = Inr () \<and>
        s' = s1\<lparr>w_requests := w_requests s1 + min (Suc (raising srv (w_requests s1) 5)) 5,
                w_trace := w_trace s1 @
                  LogInfo (''Uploading '' @ local_file @ '' to '' @ remote_dir @
                           remote_name local_file remote_file) #
                  retried (Multipart [(''path'', remote_dir)]
                             [(''files[]'', remote_name local_file remote_file, contents)])
                    (raising srv (w_requests s1) 5) @
                  (if raising srv (w_requests s1) 5 < 5
                   then [Request ''POST'' ''/upload''
                           (Multipart [(''path'', remote_dir)]
                              [(''files[]'', remote_name local_file remote_file, contents)])
                           (srv (w_requests s1 + raising srv (w_requests s1) 5)),
                         LogInfo (reason_of (srv (w_requests s1 + raising srv (w_requests s1) 5)))]
                   else [LogInfo ''Failed!''])\<rparr>"
    if "w_files s local_file = Some contents"
      and "(if del_existing
            then delete_existing srv (remote_dir @ ''/'' @ remote_name local_file remote_file) s
            else (Inr (), s)) = (Inr (), s1)"
    for contents s1
    using upload_file_reached [OF that] assms(1) by simp
  with bounds show ?thesis by blast
qed

theorem upload_file_retries_witness:
  "(case upload_file (\<lambda>_. Raises) ''/lib/dune.epub'' ''/Books/'' None False
           \<lparr>w_requests = 0, w_trace = [], w_files = [''/lib/dune.epub'' \<mapsto> ''epub'']\<rparr> of
      (r, s') \<Rightarrow>
        r = Inr () \<and>
        w_requests s' = 5 \<and>
        w_trace s' =
          LogInfo ''Uploading /lib/dune.epub to /Books/dune.epub'' #
          retried (Multipart [(''path'', ''/Books/'')] [(''files[]'', ''dune.epub'', ''epub'')]) 5 @
          [LogInfo ''Failed!''] \<and>
        length (filter is_upload (w_trace s')) = 5 \<and>
        length (filter is_failed_upload (w_trace s')) = 5 \<and>
        length (filter is_sleep (w_trace s')) = 5 \<and>
        pauses_follow (w_trace s') \<and>
        stops_at_success (w_trace s') \<and>
        last (w_trace s') = LogInfo ''Failed!'')"
proof -
  define s0 where "s0 = \<lparr>w_requests = 0, w_trace = [], w_files = [''/lib/dune.epub'' \<mapsto> ''epub'']\<rparr>"
  obtain r s' where run: "upload_file (\<lambda>_. Raises) ''/lib/dune.epub'' ''/Books/'' None False s0 = (r, s')"
    by (cases "upload_file (\<lambda>_. Raises) ''/lib/dune.epub'' ''/Books/'' None False s0") auto
  have new: "w_trace s' = drop (length (w_trace s0)) (w_trace s')"
    by (simp add: s0_def)
  have present: "w_files s0 ''/lib/dune.epub'' = Some ''epub''"
    by (simp add: s0_def)
  have first: "(if False
                then delete_existing (\<lambda>_. Raises) (''/Books/'' @ ''/'' @ remote_name ''/lib/dune.epub'' None) s0
                else (Inr (), s0)) = (Inr (), s0)"
    by simp
  note facts = upload_file_retries [OF run new]
  from facts present first have exact:
    "r = Inr () \<and>
     s' = s0\<lparr>w_requests := 5,
             w_trace := LogInfo ''Uploading /lib/dune.epub to /Books/dune.epub'' #
               retried (Multipart [(''path'', ''/Books/'')] [(''files[]'', ''dune.epub'', ''epub'')]) 5 @
               [LogInfo ''Failed!'']\<rparr>"
    by (simp add: raising_always remote_name_def basename_def s0_def)
  then have c1: "r = Inr ()" and c2: "w_requests s' = 5"
    and c3: "w_trace s' =
          LogInfo ''Uploading /lib/dune.epub to /Books/dune.epub'' #
          retried (Multipart [(''path'', ''/Books/'')] [(''files[]'', ''dune.epub'', ''epub'')]) 5 @
          [LogInfo ''Failed!'']"
    by simp_all
  have c4: "length (filter is_upload (w_trace s')) = 5"
    unfolding c3 by (simp add: retried_def eval_nat_numeral is_upload_def)
  have c5: "length (filter is_failed_upload (w_trace s')) = 5"
    unfolding c3 by (simp add: retried_def eval_nat_numeral is_failed_upload_def)
  from facts c5 have c6: "length (filter is_sleep (w_trace s')) = 5"
    and c7: "pauses_follow (w_trace s')"
    and c8: "stops_at_success (w_trace s')"
    and c9: "last (w_trace s') = LogInfo ''Failed!''"
    by simp_all
  show ?thesis
    unfolding s0_def [symmetric] run prod.case
    by (intro conjI c1 c2 c3 c4 c5 c6 c7 c8 c9)
qed

text \<open>
  C4, as stated, fails: \<^verbatim>\<open>_http_conn\<close> has no \<^verbatim>\<open>try\<close>, so when the request raises,
  the exception leaves \<^verbatim>\<open>file_exists\<close> and \<^verbatim>\<open>dir_exists\<close>; they do not return
  \<^verbatim>\<open>False\<close>.
\<close>

theorem exists_checks_raise:
  "fst (file_exists (\<lambda>_. Raises) ''/Books/dune.epub'' \<lparr>w_requests = 0, w_trace = [], w_files = Map.empty\<rparr>)
     = Inl TransportError
   \<and> fst (dir_exists (\<lambda>_. Raises) ''/$User/covers'' \<lparr>w_requests = 0, w_trace = [], w_files = Map.empty\<rparr>)
     = Inl TransportError"
  by (simp add: file_exists_def dir_exists_def http_conn_def send_def)

text \<open>
  C4, amended. \<^verbatim>\<open>file_exists\<close> and \<^verbatim>\<open>dir_exists\<close> return \<^verbatim>\<open>True\<close> exactly for a
  response of status 200 and \<^verbatim>\<open>False\<close> for a response of any other status; a
  transport-level exception during the probe propagates to the caller.
\<close>

theorem exists_checks_status:
  "fst (file_exists srv remote_file s) =
     (case srv (w_requests s) of
        Raises \<Rightarrow> Inl TransportError
      | Reply resp \<Rightarrow> Inr (rs_status resp = 200))
   \<and> fst (dir_exists srv remote_dir s) =
     (case srv (w_requests s) of
        Raises \<Rightarrow> Inl TransportError
      | Reply resp \<Rightarrow> Inr (rs_status resp = 200))"
  by (simp add: file_exists_def dir_exists_def http_conn_def send_def Let_def split: outcome.splits)

text \<open>
  C9. When the download of the database file answers with status 200 and a body of
  zero bytes, \<^verbatim>\<open>download_db_file\<close> returns \<^verbatim>\<open>False\<close>, and the only local file
  written is \<^verbatim>\<open>local_path\<close> itself, left empty: no backup copy is created.
\<close>

theorem download_db_file_empty:
  assumes "srv (w_requests s) = Reply resp" and "rs_status resp = 200" and "rs_body resp = []"
  shows "fst (download_db_file srv path local_path stamp s) = Inr False
         \<and> w_files (snd (download_db_file srv path local_path stamp s)) = (w_files s)(local_path \<mapsto> [])"
  using assms
  by (simp add: download_db_file_def download_file_def http_conn_def send_def emit_def Let_def)

theorem download_db_file_empty_witness:
  "fst (download_db_file (\<lambda>_. Reply \<lparr>rs_status = 200, rs_reason = ''OK'', rs_body = []\<rparr>)
          ''/$App/db.sqlite'' ''/tmp/db.sqlite'' ''-20190301-120000''
          \<lparr>w_requests = 0, w_trace = [], w_files = [''/tmp/db.sqlite'' \<mapsto> ''SQLite format 3'']\<rparr>) = Inr False
   \<and> w_files (snd (download_db_file (\<lambda>_. Reply \<lparr>rs_status = 200, rs_reason = ''OK'', rs_body = []\<rparr>)
          ''/$App/db.sqlite'' ''/tmp/db.sqlite'' ''-20190301-120000''
          \<lparr>w_requests = 0, w_trace = [], w_files = [''/tmp/db.sqlite'' \<mapsto> ''SQLite format 3'']\<rparr>))
        ''/tmp/db.sqlite-20190301-120000'' = None"
  using download_db_file_empty [of "\<lambda>_. Reply \<lparr>rs_status = 200, rs_reason = ''OK'', rs_body = []\<rparr>"
      "\<lparr>w_requests = 0, w_trace = [], w_files = [''/tmp/db.sqlite'' \<mapsto> ''SQLite format 3'']\<rparr>"
      "\<lparr>rs_status = 200, rs_reason = ''OK'', rs_body = []\<rparr>"
      "''/$App/db.sqlite''" "''/tmp/db.sqlite''" "''-20190301-120000''"]
  by simp

subsection \<open>\<^verbatim>\<open>clean_up\<close>\<close>

lemma t_name_Table: "t_name (Table t) = t"
  by (simp add: Table_def Let_def)

lemma del_from_lookups_eq:
  "del_from_lookups (Table t) db =
     (length (db t) - length (filter (referenced t db) (db t)),
      db(t := filter (referenced t db) (db t)))"
  by (simp add: del_from_lookups_def Let_def t_name_Table referenced_def [abs_def])

lemma referenced_cong: "db' (''books_'' @ t) = db (''books_'' @ t) \<Longrightarrow> referenced t db' = referenced t db"
  by (rule ext) (simp add: referenced_def)

lemma clean_tables_result:
  assumes "clean_tables ts db = (ns, db')"
    and "\<forall>t \<in> set ts. ''books_'' @ t \<notin> set ts"
  shows "(\<forall>u. u \<notin> set ts \<longrightarrow> db' u = db u) \<and>
         (\<forall>t \<in> set ts. \<forall>r \<in> set (db' t). referenced t db r)"
  using assms
proof (induction ts arbitrary: db ns db')
  case Nil
  then show ?case by simp
next
  case (Cons t rest)
  define db1 where "db1 = db(t := filter (referenced t db) (db t))"
  obtain ns' where rest: "clean_tables rest db1 = (ns', db')"
    using Cons.prems(1) by (auto simp: del_from_lookups_eq db1_def split: prod.splits)
  have disj: "\<forall>t' \<in> set rest. ''books_'' @ t' \<notin> set rest"
    using Cons.prems(2) by auto
  from Cons.IH [OF rest disj] have
    out: "\<And>u. u \<notin> set rest \<Longrightarrow> db' u = db1 u" and
    ins: "\<And>t' r. t' \<in> set rest \<Longrightarrow> r \<in> set (db' t') \<Longrightarrow> referenced t' db1 r"
    by auto
  have same: "referenced t' db1 = referenced t' db" if "t' \<in> set (t # rest)" for t'
  proof (rule referenced_cong)
    from that Cons.prems(2) have "''books_'' @ t' \<noteq> t" by auto
    then show "db1 (''books_'' @ t') = db (''books_'' @ t')" by (simp add: db1_def)
  qed
  have "db' u = db u" if "u \<notin> set (t # rest)" for u
    using that out [of u] by (simp add: db1_def)
  moreover have "referenced t' db r" if "t' \<in> set (t # rest)" "r \<in> set (db' t')" for t' r
  proof (cases "t' \<in> set rest")
    case True
    with ins that same show ?thesis by auto
  next
    case False
    with that have "t' = t" by simp
    with False out [of t] that(2) show ?thesis by (simp add: db1_def)
  qed
  ultimately show ?case by blast
qed

lemma clean_tables_clean:
  assumes "\<forall>t \<in> set ts. \<forall>r \<in> set (db t). referenced t db r"
  shows "clean_tables ts db = (replicate (length ts) 0, db)"
  using assms
proof (induction ts)
  case Nil
  then show ?case by simp
next
  case (Cons t rest)
  then have "filter (referenced t db) (db t) = db t"
    by (simp add: filter_id_conv)
  with Cons show ?case
    by (simp add: del_from_lookups_eq)
qed

lemma lookup_link_disjoint: "\<forall>t \<in> set LOOKUP_TABLES. ''books_'' @ t \<notin> set LOOKUP_TABLES"
  by (simp add: LOOKUP_TABLES_def COLLATION_TABLES_def)

text \<open>
  C6. For every state of the database, running \<^verbatim>\<open>clean_up\<close> a second time changes
  nothing: each of its five \<^verbatim>\<open>DELETE\<close> statements reports zero rows, and the database
  after the second run is the database after the first.
\<close>

theorem clean_up_twice:
  "clean_up (snd (clean_up db)) = ([0, 0, 0, 0, 0], snd (clean_up db))"
proof -
  obtain ns db' where run: "clean_tables LOOKUP_TABLES db = (ns, db')"
    by (cases "clean_tables LOOKUP_TABLES db") auto
  note res = clean_tables_result [OF run lookup_link_disjoint]
  have "\<forall>t \<in> set LOOKUP_TABLES. \<forall>r \<in> set (db' t). referenced t db' r"
  proof (intro ballI)
    fix t r assume t: "t \<in> set LOOKUP_TABLES" and r: "r \<in> set (db' t)"
    from t lookup_link_disjoint have "''books_'' @ t \<notin> set LOOKUP_TABLES" by blast
    with res have "db' (''books_'' @ t) = db (''books_'' @ t)" by blast
    then have "referenced t db' = referenced t db" by (rule referenced_cong)
    with res t r show "referenced t db' r" by simp
  qed
  then have "clean_tables LOOKUP_TABLES db' = (replicate (length LOOKUP_TABLES) 0, db')"
    by (rule clean_tables_clean)
  moreover have "replicate (length LOOKUP_TABLES) (0::nat) = [0, 0, 0, 0, 0]"
    by (simp add: LOOKUP_TABLES_def COLLATION_TABLES_def)
  ultimately show ?thesis
    using run by (simp add: clean_up_def)
qed

text \<open>
  An instance: the first run deletes the author that no book refers to, the second run
  deletes nothing.
\<close>

theorem clean_up_twice_witness:
  "fst (clean_up ((\<lambda>_. [])
          (''authors'' := [(\<lambda>_. Null)(''aid'' := IntV 1, ''name'' := TextV ''Frank Herbert''),
                           (\<lambda>_. Null)(''aid'' := IntV 2, ''name'' := TextV ''Nobody'')],
           ''books_authors'' := [(\<lambda>_. Null)(''bid'' := IntV 3, ''aid'' := IntV 1)])))
     = [1, 0, 0, 0, 0]
   \<and> clean_up (snd (clean_up ((\<lambda>_. [])
          (''authors'' := [(\<lambda>_. Null)(''aid'' := IntV 1, ''name'' := TextV ''Frank Herbert''),
                           (\<lambda>_. Null)(''aid'' := IntV 2, ''name'' := TextV ''Nobody'')],
           ''books_authors'' := [(\<lambda>_. Null)(''bid'' := IntV 3, ''aid'' := IntV 1)]))))
     = ([0, 0, 0, 0, 0],
        snd (clean_up ((\<lambda>_. [])
          (''authors'' := [(\<lambda>_. Null)(''aid'' := IntV 1, ''name'' := TextV ''Frank Herbert''),
                           (\<lambda>_. Null)(''aid'' := IntV 2, ''name'' := TextV ''Nobody'')],
           ''books_authors'' := [(\<lambda>_. Null)(''bid'' := IntV 3, ''aid'' := IntV 1)]))))"
proof -
  have "fst (clean_up ((\<lambda>_. [])
          (''authors'' := [(\<lambda>_. Null)(''aid'' := IntV 1, ''name'' := TextV ''Frank Herbert''),
                           (\<lambda>_. Null)(''aid'' := IntV 2, ''name'' := TextV ''Nobody'')],
           ''books_authors'' := [(\<lambda>_. Null)(''bid'' := IntV 3, ''aid'' := IntV 1)])))
     = [1, 0, 0, 0, 0]"
    by (simp add: clean_up_def LOOKUP_TABLES_def COLLATION_TABLES_def del_from_lookups_def
          Table_def Let_def sql_not_in_def split: prod.splits)
  then show ?thesis
    using clean_up_twice by blast
qed

subsection \<open>\<^verbatim>\<open>Database.execute\<close>\<close>

lemma plain_sql_quote: "plain s \<Longrightarrow> plain (sql_quote s)"
  by (auto simp: plain_def sql_quote_def dest: set_takeWhileD split: if_splits)

lemma render_raises_plain: "plain s \<Longrightarrow> render_raises sub (TextV s) = None"
  by (simp add: render_raises_def plain_sql_quote)

lemma execute_cases:
  assumes "execute sub params statement db = (e, db')"
  shows "(e \<noteq> None \<and> db' = db) \<or> (e = None \<and> db' = statement db)"
  using assms by (auto simp: execute_def split: option.splits)

lemma execute_raises_None:
  "execute_raises sub params = None \<Longrightarrow> execute sub params statement db = (None, statement db)"
  by (simp add: execute_def)

lemma execute_raises_Some:
  "execute_raises sub params = Some x \<Longrightarrow> execute sub params statement db = (Some x, db)"
  by (simp add: execute_def)

lemma bind_raises_simps:
  "bind_raises (TextV s) = None" "bind_raises (RealV x) = None" "bind_raises Null = None"
  "bind_raises (BlobV b) = None"
  by (simp_all add: bind_raises_def)

lemma render_raises_simps:
  "render_raises sub (IntV i) = None" "render_raises sub (RealV x) = None"
  "render_raises sub Null = None" "render_raises sub (BlobV b) = None"
  by (simp_all add: render_raises_def)

lemma execute_plain_text:
  assumes "\<forall>p \<in> set params. \<exists>s. p = TextV s \<and> plain s"
  shows "execute_raises sub params = None"
proof -
  have "first_error (map bind_raises params) = None \<and>
        first_error (map (render_raises sub) params) = None"
    using assms
  proof (induction params)
    case Nil
    then show ?case by simp
  next
    case (Cons p ps)
    then obtain s where "p = TextV s" "plain s" by auto
    with Cons show ?case
      by (simp add: bind_raises_simps render_raises_plain)
  qed
  then show ?thesis by (simp add: execute_raises_def)
qed

subsection \<open>Identifier schemes\<close>

lemma Table_ebookids:
  "Table ''ebookids'' = \<lparr>t_name = ''ebookids'', t_xid = ''eid'', t_maincol = ''ebookid'',
     t_midcols = [''scheme'', ''value''], t_namecol = ''value'',
     t_calname = ''identifiers'', t_calmain = ''ebookid''\<rparr>"
  by (simp add: Table_def Let_def)

lemma scheme_code_cases:
  "scheme_code scheme =
     (if scheme = ''isbn'' then ''10''
      else if scheme = ''amazon'' \<or> scheme = ''asin'' then ''15''
      else if scheme = ''oclc'' then ''12''
      else ''0'')"
  by (simp add: scheme_code_def EBOOK_SCHEMES_def)

lemma scheme_code_plain: "plain (scheme_code scheme)"
  by (simp add: scheme_code_cases plain_def)

lemma insert_or_replace_set:
  "set (insert_or_replace pk uniq new rows) \<subseteq>
     insert (if new pk = Null then new(pk := IntV (next_rowid pk rows)) else new) (set rows)"
  by (auto simp: insert_or_replace_def Let_def set_insort_key)

lemma insert_or_replace_mem:
  "(if new pk = Null then new(pk := IntV (next_rowid pk rows)) else new)
     \<in> set (insert_or_replace pk uniq new rows)"
  by (simp add: insert_or_replace_def Let_def set_insort_key)

lemma ins_books_links_other:
  "u \<noteq> ''books_'' @ t_name tbl \<Longrightarrow> ins_books_links tbl seq md5 name db u = db u"
  by (simp add: ins_books_links_def Let_def)

text \<open>
  The parameters of the two statements for an identifier: only the value and the hash
  can make the rendering raise, the scheme code and the timestamp cannot.
\<close>

lemma ebookids_fill_raises:
  "execute_raises sub [TextV value, TextV (scheme_code scheme), TextV value, RealV timestamp]
     = render_raises sub (TextV value)"
  by (cases "render_raises sub (TextV value)")
     (simp_all add: execute_raises_def bind_raises_def render_raises_plain [OF scheme_code_plain]
        render_raises_def [of sub "RealV timestamp"])

lemma ebookids_link_raises:
  "render_raises sub (TextV value) = None \<Longrightarrow>
     execute_raises sub [TextV md5, TextV value] = render_raises sub (TextV md5)"
  by (cases "render_raises sub (TextV md5)") (simp_all add: execute_raises_def bind_raises_def)

lemma ins_lookup_row_ebookids:
  "ins_lookup_row sub (Table ''ebookids'') seqnumber md5 timestamp (Pair scheme value) db =
     (if value = [] then (None, db)
      else case render_raises sub (TextV value) of
             Some x \<Rightarrow> (Some x, db)
           | None \<Rightarrow>
               (case render_raises sub (TextV md5) of
                  Some x \<Rightarrow>
                    (Some x, fill_lookups (Table ''ebookids'') value
                               [TextV (scheme_code scheme), TextV value] timestamp db)
                | None \<Rightarrow>
                    (None, ins_books_links (Table ''ebookids'') None md5 value
                             (fill_lookups (Table ''ebookids'') value
                                [TextV (scheme_code scheme), TextV value] timestamp db))))"
proof -
  have ne: "scheme_code scheme \<noteq> []"
    by (simp add: scheme_code_cases)
  show ?thesis
  proof (cases "value = []")
    case True
    then show ?thesis
      by (simp add: ins_lookup_row_def name_extra_def Table_ebookids)
  next
    case False
    show ?thesis
    proof (cases "render_raises sub (TextV value)")
      case (Some x)
      then have "execute_raises sub
          [TextV value, TextV (scheme_code scheme), TextV value, RealV timestamp] = Some x"
        by (simp add: ebookids_fill_raises)
      with False ne Some show ?thesis
        by (simp add: ins_lookup_row_def name_extra_def Table_ebookids Let_def execute_raises_Some)
    next
      case None
      then have fil: "execute_raises sub
          [TextV value, TextV (scheme_code scheme), TextV value, RealV timestamp] = None"
        by (simp add: ebookids_fill_raises)
      have lnk: "execute_raises sub [TextV md5, TextV value] = render_raises sub (TextV md5)"
        using None by (rule ebookids_link_raises)
      show ?thesis
      proof (cases "render_raises sub (TextV md5)")
        case inner: None
        with False ne None fil lnk show ?thesis
          by (simp add: ins_lookup_row_def name_extra_def Table_ebookids Let_def
                execute_raises_None)
      next
        case inner: (Some x)
        with False ne None fil lnk show ?thesis
          by (simp add: ins_lookup_row_def name_extra_def Table_ebookids Let_def
                execute_raises_None execute_raises_Some)
      qed
    qed
  qed
qed

lemma fill_lookups_ebookids:
  "fill_lookups (Table ''ebookids'') value [TextV code, TextV value] timestamp db ''ebookids'' =
     insert_or_replace ''eid'' [''scheme'', ''value'']
       ((\<lambda>_. Null)(''eid'' := (case filter (\<lambda>r. sql_like (r ''value'') value) (db ''ebookids'') of
                                 [] \<Rightarrow> Null | r # _ \<Rightarrow> r ''eid''),
                    ''scheme'' := TextV code, ''value'' := TextV value,
                    ''timestamp'' := RealV timestamp))
       (db ''ebookids'')"
  by (simp add: Table_ebookids fill_lookups_def Let_def unique_cols_def COLLATION_TABLES_def
        cong: list.case_cong)

text \<open>
  The error path of the step: when rendering the value raises, the step raises the same
  and writes nothing. For the value \<^verbatim>\<open>a\2b\<close> the template holds the group reference
  \<^verbatim>\<open>\2\<close>; with a library that raises for it, no row reaches the table.
\<close>

lemma ins_lookup_row_ebookids_raises:
  assumes "value \<noteq> []" and "render_raises sub (TextV value) = Some x"
  shows "ins_lookup_row sub (Table ''ebookids'') seqnumber md5 timestamp (Pair scheme value) db
           = (Some x, db)"
  using assms by (simp add: ins_lookup_row_ebookids)

lemma ins_lookup_row_group_reference:
  "ins_lookup_row (\<lambda>_. Some ReError) (Table ''ebookids'') SeqNone ''H1'' 573004800
     (Pair ''isbn'' [CHR ''a'', CHR 0x5C, CHR ''2'', CHR ''b'']) (\<lambda>_. [])
   = (Some ReError, \<lambda>_. [])"
  by (rule ins_lookup_row_ebookids_raises)
     (simp_all add: render_raises_def plain_def sql_quote_def)

text \<open>
  C8. The loop body of \<^verbatim>\<open>_ins_book_to_link_tables\<close> for an identifier
  \<open>(scheme, value)\<close> and the table \<^verbatim>\<open>ebookids\<close>, with \<open>code\<close> standing for \<^verbatim>\<open>10\<close> when
  the scheme is \<^verbatim>\<open>isbn\<close>, \<^verbatim>\<open>15\<close> when it is \<^verbatim>\<open>amazon\<close> or \<^verbatim>\<open>asin\<close>, \<^verbatim>\<open>12\<close> when it
  is \<^verbatim>\<open>oclc\<close> and \<^verbatim>\<open>0\<close> for every other scheme. Every row of \<^verbatim>\<open>ebookids\<close> that the
  step wrote has this code as its scheme and the identifier's value as its value. Such a
  row is in the table afterwards whenever the value is not empty and the rendering of
  the value in \<^verbatim>\<open>Database.execute\<close> raises nothing, which is so for every value
  without backslash. The exception that leaves the step is, for a value that is not
  empty, the one of rendering the value, or else the one of rendering the hash, if
  any. The instance \<^verbatim>\<open>isbn\<close>, \<^verbatim>\<open>9780441013593\<close> is the witness.
\<close>

theorem ebookids_scheme_code:
  assumes "ins_lookup_row sub (Table ''ebookids'') seqnumber md5 timestamp (Pair scheme value) db
             = (e, db')"
    and "code = (if scheme = ''isbn'' then ''10''
                 else if scheme = ''amazon'' \<or> scheme = ''asin'' then ''15''
                 else if scheme = ''oclc'' then ''12''
                 else ''0'')"
  shows "(\<forall>r \<in> set (db' ''ebookids''). r \<notin> set (db ''ebookids'') \<longrightarrow>
             r ''scheme'' = TextV code \<and> r ''value'' = TextV value) \<and>
         (value \<noteq> [] \<longrightarrow> render_raises sub (TextV value) = None \<longrightarrow>
            (\<exists>r \<in> set (db' ''ebookids''). r ''scheme'' = TextV code \<and> r ''value'' = TextV value)) \<and>
         (plain value \<longrightarrow> render_raises sub (TextV value) = None) \<and>
         e = (if value = [] then None
              else case render_raises sub (TextV value) of
                     Some x \<Rightarrow> Some x
                   | None \<Rightarrow> render_raises sub (TextV md5))"
proof -
  define new where "new =
    (\<lambda>_. Null)(''eid'' := (case filter (\<lambda>r. sql_like (r ''value'') value) (db ''ebookids'') of
                              [] \<Rightarrow> Null | r # _ \<Rightarrow> r ''eid''),
                ''scheme'' := TextV (scheme_code scheme), ''value'' := TextV value,
                ''timestamp'' := RealV timestamp)"
  define new' where "new' =
    (if new ''eid'' = Null then new(''eid'' := IntV (next_rowid ''eid'' (db ''ebookids''))) else new)"
  define written where "written = insert_or_replace ''eid'' [''scheme'', ''value''] new (db ''ebookids'')"
  have code: "scheme_code scheme = code"
    using assms(2) by (simp add: scheme_code_cases)
  have vals: "new' ''scheme'' = TextV code \<and> new' ''value'' = TextV value"
    by (simp add: new'_def new_def code)
  have mem: "new' \<in> set written"
    unfolding written_def new'_def by (rule insert_or_replace_mem)
  have sub: "set written \<subseteq> insert new' (set (db ''ebookids''))"
    unfolding written_def new'_def by (rule insert_or_replace_set)
  have run: "(e, db') =
     (if value = [] then (None, db)
      else case render_raises sub (TextV value) of
             Some x \<Rightarrow> (Some x, db)
           | None \<Rightarrow>
               (case render_raises sub (TextV md5) of
                  Some x \<Rightarrow>
                    (Some x, fill_lookups (Table ''ebookids'') value
                               [TextV (scheme_code scheme), TextV value] timestamp db)
                | None \<Rightarrow>
                    (None, ins_books_links (Table ''ebookids'') None md5 value
                             (fill_lookups (Table ''ebookids'') value
                                [TextV (scheme_code scheme), TextV value] timestamp db))))"
    using assms(1) by (simp only: ins_lookup_row_ebookids)
  have tab: "db' ''ebookids'' =
      (if value = [] \<or> render_raises sub (TextV value) \<noteq> None then db ''ebookids'' else written)"
    using run
    by (cases "value = []"; cases "render_raises sub (TextV value)";
        cases "render_raises sub (TextV md5)")
       (simp_all add: ins_books_links_other Table_ebookids
          fill_lookups_ebookids [unfolded Table_ebookids] written_def new_def)
  have err: "e = (if value = [] then None
              else case render_raises sub (TextV value) of
                     Some x \<Rightarrow> Some x
                   | None \<Rightarrow> render_raises sub (TextV md5))"
    using run
    by (cases "value = []"; cases "render_raises sub (TextV value)";
        cases "render_raises sub (TextV md5)") simp_all
  have c1: "\<forall>r \<in> set (db' ''ebookids''). r \<notin> set (db ''ebookids'') \<longrightarrow>
             r ''scheme'' = TextV code \<and> r ''value'' = TextV value"
    using tab sub vals by (auto split: if_splits)
  have c2: "value \<noteq> [] \<longrightarrow> render_raises sub (TextV value) = None \<longrightarrow>
            (\<exists>r \<in> set (db' ''ebookids''). r ''scheme'' = TextV code \<and> r ''value'' = TextV value)"
    using tab mem vals by auto
  have c3: "plain value \<longrightarrow> render_raises sub (TextV value) = None"
    by (simp add: render_raises_plain)
  from c1 c2 c3 err show ?thesis by blast
qed

theorem ebookids_scheme_code_witness:
  "''9780441013593'' \<noteq> [] \<and> plain ''9780441013593'' \<and>
   fst (ins_lookup_row (\<lambda>_. Some ReError) (Table ''ebookids'') SeqNone ''H1'' 573004800
          (Pair ''isbn'' ''9780441013593'') (\<lambda>_. [])) = None \<and>
   (\<exists>r \<in> set (snd (ins_lookup_row (\<lambda>_. Some ReError) (Table ''ebookids'') SeqNone ''H1'' 573004800
                      (Pair ''isbn'' ''9780441013593'') (\<lambda>_. [])) ''ebookids'').
      r ''scheme'' = TextV ''10'' \<and> r ''value'' = TextV ''9780441013593'')"
proof -
  have a: "''9780441013593'' \<noteq> []" by simp
  have p: "plain ''9780441013593''" "plain ''H1''" by (simp_all add: plain_def)
  have b: "ins_lookup_row (\<lambda>_. Some ReError) (Table ''ebookids'') SeqNone ''H1'' 573004800
             (Pair ''isbn'' ''9780441013593'') (\<lambda>_. [])
           = (fst (ins_lookup_row (\<lambda>_. Some ReError) (Table ''ebookids'') SeqNone ''H1'' 573004800
                     (Pair ''isbn'' ''9780441013593'') (\<lambda>_. [])),
              snd (ins_lookup_row (\<lambda>_. Some ReError) (Table ''ebookids'') SeqNone ''H1'' 573004800
                     (Pair ''isbn'' ''9780441013593'') (\<lambda>_. [])))"
    by simp
  have c: "''10'' = (if ''isbn'' = ''isbn'' then ''10''
                     else if ''isbn'' = ''amazon'' \<or> ''isbn'' = ''asin'' then ''15''
                     else if ''isbn'' = ''oclc'' then ''12''
                     else ''0'')"
    by simp
  have r: "render_raises (\<lambda>_. Some ReError) (TextV ''H1'') = None"
    using p(2) by (rule render_raises_plain)
  have v: "render_raises (\<lambda>_. Some ReError) (TextV ''9780441013593'') = None"
    using p(1) by (rule render_raises_plain)
  note facts = ebookids_scheme_code [OF b c]
  from facts a v have
    "\<exists>r \<in> set (snd (ins_lookup_row (\<lambda>_. Some ReError) (Table ''ebookids'') SeqNone ''H1'' 573004800
                       (Pair ''isbn'' ''9780441013593'') (\<lambda>_. [])) ''ebookids'').
       r ''scheme'' = TextV ''10'' \<and> r ''value'' = TextV ''9780441013593''"
    by blast
  moreover from facts have
    "fst (ins_lookup_row (\<lambda>_. Some ReError) (Table ''ebookids'') SeqNone ''H1'' 573004800
            (Pair ''isbn'' ''9780441013593'') (\<lambda>_. []))
       = (if ''9780441013593'' = [] then None
          else case render_raises (\<lambda>_. Some ReError) (TextV ''9780441013593'') of
                 Some x \<Rightarrow> Some x
               | None \<Rightarrow> render_raises (\<lambda>_. Some ReError) (TextV ''H1''))"
    by blast
  then have
    "fst (ins_lookup_row (\<lambda>_. Some ReError) (Table ''ebookids'') SeqNone ''H1'' 573004800
            (Pair ''isbn'' ''9780441013593'') (\<lambda>_. [])) = None"
    by (simp add: v r)
  ultimately show ?thesis
    using a p(1) by blast
qed

subsection \<open>\<^verbatim>\<open>update\<close> for a hash without book\<close>

lemma sql_eq_Null [simp]: "sql_eq a Null = False"
  by (cases a) simp_all

lemma sel_bid_unmatched: "books_with db md5 = [] \<Longrightarrow> sel_bid db md5 = Null"
  by (simp add: sel_bid_def)

lemma update_metadata_unmatched:
  "books_with db md5 = [] \<Longrightarrow> update_metadata t p l a th ar ch md5 db = db"
  by (simp add: update_metadata_def sel_bid_unmatched)

lemma delete_book_rows_unmatched:
  "books_with db md5 = [] \<Longrightarrow> delete_book_rows tname md5 db = db"
  by (simp add: delete_book_rows_def sel_bid_unmatched)

lemma execute_unmatched:
  assumes "statement db = db" and "execute sub params statement db = (e, db')"
  shows "db' = db"
  using execute_cases [OF assms(2)] assms(1) by auto

lemma del_links_unmatched:
  "books_with db md5 = [] \<Longrightarrow> del_links sub md5 ts db = (e, db') \<Longrightarrow> db' = db"
proof (induction ts arbitrary: e db')
  case Nil
  then show ?case by simp
next
  case (Cons t ts)
  obtain e1 db1 where step:
    "execute sub [TextV md5] (delete_book_rows (''books_'' @ t) md5) db = (e1, db1)"
    by (cases "execute sub [TextV md5] (delete_book_rows (''books_'' @ t) md5) db") auto
  have same: "db1 = db"
    by (rule execute_unmatched [OF _ step]) (simp add: delete_book_rows_unmatched Cons.prems(1))
  show ?case
  proof (cases e1)
    case None
    with Cons.prems(2) step same have "del_links sub md5 ts db = (e, db')" by simp
    with Cons.prems(1) show ?thesis by (rule Cons.IH)
  next
    case (Some x)
    with Cons.prems(2) step same show ?thesis by simp
  qed
qed

lemma del_book_from_link_tables_unmatched:
  "books_with db md5 = [] \<Longrightarrow> del_book_from_link_tables sub md5 db = (e, db') \<Longrightarrow> db' = db"
  unfolding del_book_from_link_tables_def by (rule del_links_unmatched)

lemma del_book_from_reviews_unmatched:
  assumes "books_with db md5 = []" and "del_book_from_reviews sub md5 db = (e, db')"
  shows "db' = db"
  by (rule execute_unmatched [OF _ assms(2) [unfolded del_book_from_reviews_def]])
     (simp add: delete_book_rows_unmatched assms(1))

lemma ins_books_links_unmatched:
  "books_with db md5 = [] \<Longrightarrow> ins_books_links tbl seq md5 name db = db"
  by (simp add: ins_books_links_def)

lemma fill_lookups_other:
  "u \<noteq> t_name tbl \<Longrightarrow> fill_lookups tbl name vals timestamp db u = db u"
  by (simp add: fill_lookups_def Let_def)

lemma unmatched_cong:
  "db' ''books'' = db ''books'' \<Longrightarrow> books_with db md5 = [] \<Longrightarrow> books_with db' md5 = []"
  by (simp add: books_with_def)

text \<open>For a hash without book, a step of the loop changes at most its own lookup table.\<close>

lemma ins_lookup_row_cases:
  assumes "ins_lookup_row sub tbl seqnumber md5 timestamp lookup_row db = (e, db')"
  shows "db' = db \<or> (\<exists>name vals. db' = fill_lookups tbl name vals timestamp db) \<or>
         (\<exists>name vals seq. db' = ins_books_links tbl seq md5 name (fill_lookups tbl name vals timestamp db))"
proof (cases "name_extra (t_name tbl) lookup_row")
  case (Inl x)
  with assms show ?thesis by (simp add: ins_lookup_row_def)
next
  case (Inr ne)
  obtain n x where ne: "ne = (n, x)" by (cases ne) auto
  show ?thesis
  proof (cases "\<exists>name extra. n = Some name \<and> x = Some extra \<and> name \<noteq> [] \<and> extra \<noteq> []")
    case False
    with assms Inr ne have "db' = db"
      by (cases n; cases x) (auto simp: ins_lookup_row_def split: if_splits)
    then show ?thesis by simp
  next
    case True
    then obtain name extra where n: "n = Some name" "x = Some extra" "name \<noteq> []" "extra \<noteq> []"
      by blast
    define vals where "vals = (if t_name tbl = ''authors'' \<or> t_name tbl = ''ebookids''
                         then [TextV extra, TextV name] else [TextV name])"
    obtain e1 db1 where fil:
      "execute sub (TextV name # vals @ [RealV timestamp]) (fill_lookups tbl name vals timestamp) db
         = (e1, db1)"
      by (cases "execute sub (TextV name # vals @ [RealV timestamp])
                   (fill_lookups tbl name vals timestamp) db") auto
    from execute_cases [OF fil] have d1:
      "(e1 \<noteq> None \<and> db1 = db) \<or> (e1 = None \<and> db1 = fill_lookups tbl name vals timestamp db)" .
    show ?thesis
    proof (cases e1)
      case (Some y)
      with assms Inr ne n fil [unfolded vals_def] have "db' = db1"
        by (simp add: ins_lookup_row_def Let_def)
      with d1 Some show ?thesis by auto
    next
      case None
      with d1 have db1: "db1 = fill_lookups tbl name vals timestamp db" by simp
      from assms Inr ne n fil [unfolded vals_def] None have run:
        "(if t_name tbl = ''sequences''
          then (case seqnumber of
                  SeqNone \<Rightarrow>
                    (case execute_raises sub [TextV md5, TextV name] of
                       Some e \<Rightarrow> (Some e, db1)
                     | None \<Rightarrow> (Some OperationalError, db1))
                | SeqInt n \<Rightarrow>
                    execute sub [TextV md5, TextV name]
                      (ins_books_links tbl (Some (seq_literal n)) md5 name) db1
                | SeqFloat x \<Rightarrow>
                    execute sub [TextV md5, TextV name]
                      (ins_books_links tbl (Some (RealV x)) md5 name) db1)
          else execute sub [TextV md5, TextV name] (ins_books_links tbl None md5 name) db1)
         = (e, db')"
        by (simp add: ins_lookup_row_def Let_def split del: if_split)
      have "db' = db1 \<or> (\<exists>seq. db' = ins_books_links tbl seq md5 name db1)"
      proof (cases "t_name tbl = ''sequences''")
        case False
        with run have "execute sub [TextV md5, TextV name] (ins_books_links tbl None md5 name) db1
                         = (e, db')" by simp
        from execute_cases [OF this] show ?thesis by blast
      next
        case True
        show ?thesis
        proof (cases seqnumber)
          case SeqNone
          with run True show ?thesis by (auto split: option.splits)
        next
          case (SeqInt k)
          with run True have "execute sub [TextV md5, TextV name]
              (ins_books_links tbl (Some (seq_literal k)) md5 name) db1 = (e, db')" by simp
          from execute_cases [OF this] show ?thesis by blast
        next
          case (SeqFloat y)
          with run True have "execute sub [TextV md5, TextV name]
              (ins_books_links tbl (Some (RealV y)) md5 name) db1 = (e, db')" by simp
          from execute_cases [OF this] show ?thesis by blast
        qed
      qed
      then show ?thesis unfolding db1 by blast
    qed
  qed
qed

lemma ins_lookup_row_unmatched:
  assumes "books_with db md5 = []" and "t_name tbl \<noteq> ''books''"
    and "ins_lookup_row sub tbl seqnumber md5 timestamp lookup_row db = (e, db')"
  shows "\<forall>u. u \<noteq> t_name tbl \<longrightarrow> db' u = db u"
proof -
  have un: "books_with (fill_lookups tbl name vals timestamp db) md5 = []" for name vals
  proof -
    have "fill_lookups tbl name vals timestamp db ''books'' = db ''books''"
      using assms(2) by (simp add: fill_lookups_other)
    then show ?thesis using assms(1) by (rule unmatched_cong)
  qed
  from ins_lookup_row_cases [OF assms(3)] consider
      (same) "db' = db"
    | (fill) name vals where "db' = fill_lookups tbl name vals timestamp db"
    | (link) name vals seq where
        "db' = ins_books_links tbl seq md5 name (fill_lookups tbl name vals timestamp db)"
    by blast
  then show ?thesis
  proof cases
    case same
    then show ?thesis by simp
  next
    case fill
    then show ?thesis by (simp add: fill_lookups_other)
  next
    case link
    then have "db' = fill_lookups tbl name vals timestamp db"
      by (simp only: ins_books_links_unmatched [OF un])
    then show ?thesis by (simp add: fill_lookups_other)
  qed
qed

lemma ins_lookup_rows_unmatched:
  assumes "books_with db md5 = []" and "t_name tbl \<noteq> ''books''"
    and "ins_lookup_rows sub tbl seqnumber md5 timestamp lookup_rows db = (e, db')"
  shows "\<forall>u. u \<noteq> t_name tbl \<longrightarrow> db' u = db u"
  using assms
proof (induction lookup_rows arbitrary: db)
  case Nil
  then show ?case by simp
next
  case (Cons lookup_row rest)
  obtain e1 db1 where step: "ins_lookup_row sub tbl seqnumber md5 timestamp lookup_row db = (e1, db1)"
    by (cases "ins_lookup_row sub tbl seqnumber md5 timestamp lookup_row db") auto
  note fr = ins_lookup_row_unmatched [OF Cons.prems(1,2) step]
  show ?case
  proof (cases e1)
    case (Some x)
    with Cons.prems(3) step have "db' = db1" by simp
    with fr show ?thesis by simp
  next
    case None
    with Cons.prems(3) step have rest: "ins_lookup_rows sub tbl seqnumber md5 timestamp rest db1 = (e, db')"
      by simp
    have "db1 ''books'' = db ''books''"
      using fr Cons.prems(2) by simp
    then have "books_with db1 md5 = []"
      using Cons.prems(1) by (rule unmatched_cong)
    from Cons.IH [OF this Cons.prems(2) rest] fr show ?thesis by simp
  qed
qed

lemma t_name_Table': "t_name (Table t) = t"
  by (simp add: Table_def Let_def)

lemma ins_tables_unmatched:
  assumes "books_with db md5 = []" and "''books'' \<notin> set ts"
    and "ins_tables sub cal_db cal_bid md5 timestamp ts vars db = (e, db')"
  shows "\<forall>u. u \<notin> set ts \<longrightarrow> db' u = db u"
  using assms
proof (induction ts arbitrary: db vars)
  case Nil
  then show ?case by simp
next
  case (Cons t rest)
  show ?case
  proof (cases "fetch_rows cal_db cal_bid (Table t) vars")
    case (Inl x)
    with Cons.prems(3) show ?thesis by simp
  next
    case (Inr v)
    obtain seqnumber rows where v: "v = (seqnumber, rows)" by (cases v) auto
    show ?thesis
    proof (cases rows)
      case None
      with Cons.prems(3) Inr v show ?thesis by simp
    next
      case (Some lookup_rows)
      obtain e1 db1 where step:
        "ins_lookup_rows sub (Table t) seqnumber md5 timestamp lookup_rows db = (e1, db1)"
        by (cases "ins_lookup_rows sub (Table t) seqnumber md5 timestamp lookup_rows db") auto
      have nb: "t_name (Table t) \<noteq> ''books''"
        using Cons.prems(2) by (auto simp: t_name_Table')
      from ins_lookup_rows_unmatched [OF Cons.prems(1) nb step]
      have fr: "\<forall>u. u \<noteq> t \<longrightarrow> db1 u = db u" by (simp add: t_name_Table')
      show ?thesis
      proof (cases e1)
        case (Some x)
        with Cons.prems(3) Inr v \<open>rows = Some lookup_rows\<close> step have "db' = db1" by simp
        with fr show ?thesis by simp
      next
        case None
        with Cons.prems(3) Inr v \<open>rows = Some lookup_rows\<close> step
        have rest: "ins_tables sub cal_db cal_bid md5 timestamp rest (seqnumber, Some lookup_rows) db1 = (e, db')"
          by simp
        have "db1 ''books'' = db ''books''"
          using fr Cons.prems(2) by auto
        then have "books_with db1 md5 = []"
          using Cons.prems(1) by (rule unmatched_cong)
        moreover have "''books'' \<notin> set rest" using Cons.prems(2) by simp
        ultimately have "\<forall>u. u \<notin> set rest \<longrightarrow> db' u = db1 u"
          using rest by (rule Cons.IH)
        with fr show ?thesis by simp
      qed
    qed
  qed
qed

lemma ins_book_to_link_tables_unmatched:
  assumes "books_with db md5 = []"
    and "ins_book_to_link_tables sub cal_db cal_bid md5 timestamp db = (e, db')"
  shows "\<forall>u. u \<notin> set LOOKUP_TABLES \<longrightarrow> db' u = db u"
proof -
  have "''books'' \<notin> set LOOKUP_TABLES"
    by (simp add: LOOKUP_TABLES_def COLLATION_TABLES_def)
  from ins_tables_unmatched [OF assms(1) this] assms(2) show ?thesis
    unfolding ins_book_to_link_tables_def by blast
qed

lemma ins_review_other:
  "ins_review decl bid rating timestamp db = (e, db') \<Longrightarrow> u \<noteq> ''reviews'' \<Longrightarrow> db' u = db u"
  by (auto simp: ins_review_def Let_def split: if_splits bid_decl.splits)

lemma ins_book_to_reviews_other:
  "ins_book_to_reviews sub cal_db cal_bid md5 timestamp decl db = (e, db') \<Longrightarrow> u \<noteq> ''reviews''
     \<Longrightarrow> db' u = db u"
  by (auto simp: ins_book_to_reviews_def split: if_splits list.splits option.splits
        dest: ins_review_other)

lemma ins_book_to_reviews_no_rating:
  assumes "\<forall>d \<in> set (cal_data cal_db). cd_id d = cal_bid \<longrightarrow> cd_rating d = None \<or> cd_rating d = Some 0"
    and "ins_book_to_reviews sub cal_db cal_bid md5 timestamp decl db = (e, db')"
  shows "db' = db"
proof (cases "filter (\<lambda>d. cd_id d = cal_bid) (cal_data cal_db)")
  case Nil
  with assms(2) show ?thesis
    by (auto simp: ins_book_to_reviews_def split: if_splits)
next
  case (Cons d ds)
  have "last (d # ds) \<in> set (filter (\<lambda>d. cd_id d = cal_bid) (cal_data cal_db))"
    unfolding Cons by (rule last_in_set) simp
  with assms(1) have "cd_rating (last (d # ds)) = None \<or> cd_rating (last (d # ds)) = Some 0"
    by auto
  with assms(2) Cons show ?thesis
    by (auto simp: ins_book_to_reviews_def split: if_splits)
qed

lemma update_unmatched_tables:
  assumes un: "books_with (kd_tables self) md5 = []"
    and run: "update sub open_cover timestamp cal_db row md5 self = (r, self')"
  shows "(\<forall>u. u \<notin> set LOOKUP_TABLES \<longrightarrow> u \<noteq> ''reviews'' \<longrightarrow> kd_tables self' u = kd_tables self u) \<and>
         ((\<forall>d \<in> set (cal_data cal_db). cd_id d = row_id row \<longrightarrow>
               cd_rating d = None \<or> cd_rating d = Some 0) \<longrightarrow>
            kd_tables self' ''reviews'' = kd_tables self ''reviews'')"
proof (cases row)
  case (SqliteRow x)
  with run show ?thesis by (simp add: update_def)
next
  case (DictRow d)
  show ?thesis
  proof (cases "published_of (cd_pubdate d)")
    case (Inl e)
    with run DictRow show ?thesis by (simp add: update_def)
  next
    case pub: (Inr published)
    show ?thesis
    proof (cases "get_thumb open_cover d")
      case (Inl e)
      with run DictRow pub show ?thesis by (simp add: update_def Let_def)
    next
      case (Inr th)
      obtain thumbnail aspectratio where th: "th = (thumbnail, aspectratio)" by (cases th) auto
      define db where "db = kd_tables self"
      define annotation where "annotation = (if kd_remove_html self
                                  then TextV (remove_html_markup (cd_comments d))
                                  else (case cd_comments d of None \<Rightarrow> Null | Some c \<Rightarrow> TextV c))"
      define language where "language = (case cd_language d of None \<Rightarrow> '''' | Some l \<Rightarrow> l)"
      have un': "books_with db md5 = []" using un by (simp add: db_def)
      obtain e1 db1 where s1:
        "execute sub [TextV (row_title (DictRow d)), TextV published, TextV language, annotation,
                      BlobV thumbnail, RealV aspectratio, Null, TextV md5]
           (update_metadata (TextV (row_title (DictRow d))) (TextV published) (TextV language) annotation
              (BlobV thumbnail) (RealV aspectratio) Null md5) db = (e1, db1)"
        by (cases "execute sub [TextV (row_title (DictRow d)), TextV published, TextV language, annotation,
                      BlobV thumbnail, RealV aspectratio, Null, TextV md5]
           (update_metadata (TextV (row_title (DictRow d))) (TextV published) (TextV language) annotation
              (BlobV thumbnail) (RealV aspectratio) Null md5) db") auto
      have d1: "db1 = db"
        by (rule execute_unmatched [OF _ s1]) (simp add: update_metadata_unmatched un')
      obtain e2 db2 where s2: "del_book_from_link_tables sub md5 db = (e2, db2)"
        by (cases "del_book_from_link_tables sub md5 db") auto
      have d2: "db2 = db"
        using un' s2 by (rule del_book_from_link_tables_unmatched)
      obtain e3 db3 where s3: "del_book_from_reviews sub md5 db = (e3, db3)"
        by (cases "del_book_from_reviews sub md5 db") auto
      have d3: "db3 = db"
        using un' s3 by (rule del_book_from_reviews_unmatched)
      obtain e4 db4 where links:
        "ins_book_to_link_tables sub cal_db (row_id (DictRow d)) md5 timestamp db = (e4, db4)"
        by (cases "ins_book_to_link_tables sub cal_db (row_id (DictRow d)) md5 timestamp db") auto
      obtain e5 db5 where revs:
        "ins_book_to_reviews sub cal_db (row_id (DictRow d)) md5 timestamp (kd_reviews_bid self) db4 = (e5, db5)"
        by (cases "ins_book_to_reviews sub cal_db (row_id (DictRow d)) md5 timestamp (kd_reviews_bid self) db4")
           auto
      note fr4 = ins_book_to_link_tables_unmatched [OF un' links]
      have steps: "(r, self') =
        (case execute sub [TextV (row_title (DictRow d)), TextV published, TextV language, annotation,
                           BlobV thumbnail, RealV aspectratio, Null, TextV md5]
                (update_metadata (TextV (row_title (DictRow d))) (TextV published) (TextV language)
                   annotation (BlobV thumbnail) (RealV aspectratio) Null md5) db of
           (Some e, db1) \<Rightarrow> (Some e, self\<lparr>kd_tables := db1\<rparr>)
         | (None, db1) \<Rightarrow>
        (case del_book_from_link_tables sub md5 db1 of
           (Some e, db2) \<Rightarrow> (Some e, self\<lparr>kd_tables := db2\<rparr>)
         | (None, db2) \<Rightarrow>
        (case del_book_from_reviews sub md5 db2 of
           (Some e, db3) \<Rightarrow> (Some e, self\<lparr>kd_tables := db3\<rparr>)
         | (None, db3) \<Rightarrow>
        (case ins_book_to_link_tables sub cal_db (row_id (DictRow d)) md5 timestamp db3 of
           (Some e, db4) \<Rightarrow> (Some e, self\<lparr>kd_tables := db4\<rparr>)
         | (None, db4) \<Rightarrow>
        (case ins_book_to_reviews sub cal_db (row_id (DictRow d)) md5 timestamp (kd_reviews_bid self) db4 of
           (r, db5) \<Rightarrow> (r, self\<lparr>kd_tables := db5\<rparr>))))))"
        using run [symmetric, unfolded DictRow] pub Inr th
        by (simp add: update_def Let_def annotation_def language_def db_def)
      have "(r, self') =
        (case e1 of Some e \<Rightarrow> (Some e, self\<lparr>kd_tables := db\<rparr>)
         | None \<Rightarrow>
        (case e2 of Some e \<Rightarrow> (Some e, self\<lparr>kd_tables := db\<rparr>)
         | None \<Rightarrow>
        (case e3 of Some e \<Rightarrow> (Some e, self\<lparr>kd_tables := db\<rparr>)
         | None \<Rightarrow>
        (case e4 of Some e \<Rightarrow> (Some e, self\<lparr>kd_tables := db4\<rparr>)
         | None \<Rightarrow> (e5, self\<lparr>kd_tables := db5\<rparr>)))))"
        unfolding steps s1 [unfolded d1]
        by (cases e1; cases e2; cases e3; cases e4)
           (simp_all add: s2 [unfolded d2] s3 [unfolded d3] links revs)
      then have res: "kd_tables self' = db \<or> kd_tables self' = db4 \<or>
                      (e4 = None \<and> kd_tables self' = db5)"
        by (cases e1; cases e2; cases e3; cases e4) auto
      have nr: "''reviews'' \<notin> set LOOKUP_TABLES"
        by (simp add: LOOKUP_TABLES_def COLLATION_TABLES_def)
      from res consider (same) "kd_tables self' = db" | (to_links) "kd_tables self' = db4"
        | (to_revs) "kd_tables self' = db5" by blast
      then show ?thesis
      proof cases
        case same
        then show ?thesis by (simp add: db_def)
      next
        case to_links
        with fr4 nr show ?thesis by (simp add: db_def)
      next
        case to_revs
        have "\<forall>u. u \<noteq> ''reviews'' \<longrightarrow> db5 u = db4 u"
          using ins_book_to_reviews_other [OF revs] by blast
        moreover have "db5 = db4"
          if "\<forall>d \<in> set (cal_data cal_db). cd_id d = row_id row \<longrightarrow>
                cd_rating d = None \<or> cd_rating d = Some 0"
          using ins_book_to_reviews_no_rating [OF that [unfolded DictRow] revs] .
        ultimately show ?thesis
          using to_revs fr4 nr by (auto simp: db_def)
      qed
    qed
  qed
qed

text \<open>
  C1, amended. For every record, every state of the database and every hash that
  matches no row of \<^verbatim>\<open>books\<close>, \<^verbatim>\<open>update\<close> (whether it returns or raises) leaves
  \<^verbatim>\<open>books\<close>, \<^verbatim>\<open>metadata\<close> and every link table \<^verbatim>\<open>books_*\<close> unchanged, and leaves
  \<^verbatim>\<open>reviews\<close> unchanged when no plugin record with the id of the row carries a
  rating. Nothing is stated about the lookup tables.
\<close>

theorem update_unmatched_frame:
  assumes "books_with (kd_tables self) md5 = []"
    and "update sub open_cover timestamp cal_db row md5 self = (r, self')"
  shows "kd_tables self' ''books'' = kd_tables self ''books'' \<and>
         kd_tables self' ''metadata'' = kd_tables self ''metadata'' \<and>
         (\<forall>t \<in> set LOOKUP_TABLES. kd_tables self' (''books_'' @ t) = kd_tables self (''books_'' @ t)) \<and>
         ((\<forall>d \<in> set (cal_data cal_db). cd_id d = row_id row \<longrightarrow>
               cd_rating d = None \<or> cd_rating d = Some 0) \<longrightarrow>
            kd_tables self' ''reviews'' = kd_tables self ''reviews'')"
proof -
  note fr = update_unmatched_tables [OF assms]
  have "''books'' \<notin> set LOOKUP_TABLES" "''metadata'' \<notin> set LOOKUP_TABLES"
    by (simp_all add: LOOKUP_TABLES_def COLLATION_TABLES_def)
  moreover have "\<forall>t \<in> set LOOKUP_TABLES. ''books_'' @ t \<notin> set LOOKUP_TABLES \<and> ''books_'' @ t \<noteq> ''reviews''"
    by (simp add: LOOKUP_TABLES_def COLLATION_TABLES_def)
  ultimately show ?thesis
    using fr by auto
qed

lemma dune_row_eq: "dune_row = DictRow (reshape_datum dune)"
  by (simp add: dune_row_def get_metadata_def dune_def)

lemma dune_db_eq:
  "dune_db = \<lparr>cal_data = [reshape_datum dune], live_books = [],
               live_lookup = (\<lambda>_ _. []), live_ratings = (\<lambda>_. 0)\<rparr>"
  by (simp add: dune_db_def get_metadata_def dune_def)

lemma library_unmatched: "books_with (kd_tables library) ''H0'' = []"
  by (simp add: library_def books_with_def)

lemma Table_authors:
  "Table ''authors'' = \<lparr>t_name = ''authors'', t_xid = ''aid'', t_maincol = ''namekey'',
     t_midcols = [''namekey'', ''name''], t_namecol = ''name'',
     t_calname = ''authors'', t_calmain = ''author''\<rparr>"
  by (simp add: Table_def Let_def)

theorem update_unmatched_frame_witness:
  "books_with (kd_tables library) ''H0'' = [] \<and>
   map cd_rating (cal_data dune_db) = [None] \<and>
   kd_tables (snd (update (\<lambda>_. Some ReError) (\<lambda>_. None) 573004800 dune_db dune_row ''H0'' library)) ''books''
     = kd_tables library ''books'' \<and>
   kd_tables (snd (update (\<lambda>_. Some ReError) (\<lambda>_. None) 573004800 dune_db dune_row ''H0'' library)) ''metadata''
     = kd_tables library ''metadata'' \<and>
   kd_tables (snd (update (\<lambda>_. Some ReError) (\<lambda>_. None) 573004800 dune_db dune_row ''H0'' library)) ''books_authors''
     = kd_tables library ''books_authors'' \<and>
   kd_tables (snd (update (\<lambda>_. Some ReError) (\<lambda>_. None) 573004800 dune_db dune_row ''H0'' library)) ''reviews''
     = kd_tables library ''reviews''"
proof -
  have h1: "books_with (kd_tables library) ''H0'' = []"
    by (rule library_unmatched)
  have h2: "update (\<lambda>_. Some ReError) (\<lambda>_. None) 573004800 dune_db dune_row ''H0'' library
              = (fst (update (\<lambda>_. Some ReError) (\<lambda>_. None) 573004800 dune_db dune_row ''H0'' library),
                 snd (update (\<lambda>_. Some ReError) (\<lambda>_. None) 573004800 dune_db dune_row ''H0'' library))"
    by simp
  have h3: "\<forall>d \<in> set (cal_data dune_db). cd_id d = row_id dune_row \<longrightarrow>
              cd_rating d = None \<or> cd_rating d = Some 0"
    by (simp add: dune_db_eq dune_row_eq reshape_datum_def dune_def row_id_def)
  have h4: "''authors'' \<in> set LOOKUP_TABLES"
    by (simp add: LOOKUP_TABLES_def COLLATION_TABLES_def)
  have h5: "map cd_rating (cal_data dune_db) = [None]"
    by (simp add: dune_db_eq reshape_datum_def dune_def)
  from update_unmatched_frame [OF h1 h2] h1 h3 h4 h5 show ?thesis
    by auto
qed

lemma plain_dune:
  "plain ''Dune''" "plain ''1965-08-01''" "plain []" "plain ''Arrakis''" "plain ''H0''"
  "plain ''Frank Herbert''" "plain ''Herbert, Frank''"
  by (simp_all add: plain_def)

lemma step_author:
  assumes "ins_lookup_rows sub (Table ''authors'') SeqNone ''H0'' 573004800
             [Pair ''Frank Herbert'' ''Herbert, Frank''] (kd_tables library) = (e1, db1)"
  shows "e1 = None \<and>
         map (\<lambda>r. (r ''aid'', r ''namekey'', r ''name'')) (db1 ''authors'')
           = [(IntV 1, TextV ''Herbert, Frank'', TextV ''Frank Herbert'')]"
proof -
  have fil: "execute_raises sub
      [TextV ''Frank Herbert'', TextV ''Herbert, Frank'', TextV ''Frank Herbert'', RealV 573004800]
      = None"
    by (simp add: execute_raises_def bind_raises_simps render_raises_simps render_raises_plain
          plain_dune)
  have lnk: "execute_raises sub [TextV ''H0'', TextV ''Frank Herbert''] = None"
    by (rule execute_plain_text) (simp add: plain_dune)
  show ?thesis
    using assms
    by (auto simp: ins_lookup_row_def name_extra_def Table_authors Let_def
          execute_raises_None [OF fil] execute_raises_None [OF lnk] fill_lookups_def
          insert_or_replace_def next_rowid_def unique_cols_def COLLATION_TABLES_def
          ins_books_links_def library_def books_with_def)
qed

lemma fetch_author:
  "fetch_rows dune_db 7 (Table ''authors'') (SeqNone, None)
     = Inr (SeqNone, Some [Pair ''Frank Herbert'' ''Herbert, Frank''])"
  by (simp add: fetch_rows_def dune_db_eq reshape_datum_def dune_def datum_rows_def Table_authors)

text \<open>
  C1, as stated, fails. The hash \<^verbatim>\<open>H0\<close> matches no row of \<^verbatim>\<open>books\<close>, the table
  \<^verbatim>\<open>authors\<close> is empty, and after \<^verbatim>\<open>update\<close> it holds a row for Frank Herbert:
  \<^verbatim>\<open>fill_lookups_sql\<close> ran for the author of the record, and only the statement
  that links the author to the book selected nothing. No text of the record holds a
  backslash, so this is so whatever \<^verbatim>\<open>re.sub\<close> does with one.
\<close>

theorem update_unmatched_inserts_author:
  "books_with (kd_tables library) ''H0'' = [] \<and>
   kd_tables library ''authors'' = [] \<and>
   (\<forall>sub. map (\<lambda>r. (r ''aid'', r ''namekey'', r ''name''))
            (kd_tables (snd (update sub (\<lambda>_. None) 573004800 dune_db dune_row ''H0'' library))
               ''authors'')
          = [(IntV 1, TextV ''Herbert, Frank'', TextV ''Frank Herbert'')])"
proof -
  define db0 where "db0 = kd_tables library"
  define rest where "rest = [''publishers'', ''subjects'', ''sequences'', ''ebookids'']"
  have un: "books_with db0 ''H0'' = []"
    unfolding db0_def by (rule library_unmatched)
  have "map (\<lambda>r. (r ''aid'', r ''namekey'', r ''name''))
            (kd_tables (snd (update sub (\<lambda>_. None) 573004800 dune_db dune_row ''H0'' library))
               ''authors'')
          = [(IntV 1, TextV ''Herbert, Frank'', TextV ''Frank Herbert'')]" for sub
  proof -
    obtain e1 db1 where s1:
      "ins_lookup_rows sub (Table ''authors'') SeqNone ''H0'' 573004800
         [Pair ''Frank Herbert'' ''Herbert, Frank''] db0 = (e1, db1)"
      by (cases "ins_lookup_rows sub (Table ''authors'') SeqNone ''H0'' 573004800
                   [Pair ''Frank Herbert'' ''Herbert, Frank''] db0") auto
    from step_author [OF s1 [unfolded db0_def]] have
      e1: "e1 = None" and
      row: "map (\<lambda>r. (r ''aid'', r ''namekey'', r ''name'')) (db1 ''authors'')
              = [(IntV 1, TextV ''Herbert, Frank'', TextV ''Frank Herbert'')]"
      by simp_all
    have "t_name (Table ''authors'') \<noteq> ''books''"
      by (simp add: Table_authors)
    from ins_lookup_rows_unmatched [OF un this s1] have "db1 ''books'' = db0 ''books''"
      by (simp add: Table_authors)
    then have un1: "books_with db1 ''H0'' = []"
      using un by (rule unmatched_cong)
    obtain e4 db4 where s4:
      "ins_tables sub dune_db 7 ''H0'' 573004800 rest
         (SeqNone, Some [Pair ''Frank Herbert'' ''Herbert, Frank'']) db1 = (e4, db4)"
      by (cases "ins_tables sub dune_db 7 ''H0'' 573004800 rest
                   (SeqNone, Some [Pair ''Frank Herbert'' ''Herbert, Frank'']) db1") auto
    have "''books'' \<notin> set rest" by (simp add: rest_def)
    from ins_tables_unmatched [OF un1 this s4] have a4: "db4 ''authors'' = db1 ''authors''"
      by (simp add: rest_def)
    have links: "ins_book_to_link_tables sub dune_db 7 ''H0'' 573004800 db0 = (e4, db4)"
      using s1 s4 e1 fetch_author
      by (simp add: ins_book_to_link_tables_def LOOKUP_TABLES_def COLLATION_TABLES_def rest_def)
    obtain e5 db5 where s5:
      "ins_book_to_reviews sub dune_db 7 ''H0'' 573004800 (kd_reviews_bid library) db4 = (e5, db5)"
      by (cases "ins_book_to_reviews sub dune_db 7 ''H0'' 573004800 (kd_reviews_bid library) db4")
         auto
    have a5: "db5 ''authors'' = db4 ''authors''"
      using ins_book_to_reviews_other [OF s5, of "''authors''"] by simp
    have upd: "execute sub [TextV ''Dune'', TextV ''1965-08-01'', TextV [], TextV ''Arrakis'',
                            BlobV EmptyThumb, RealV 0, Null, TextV ''H0''] statement db0
                 = (None, statement db0)" for statement
      by (rule execute_raises_None)
         (simp add: execute_raises_def bind_raises_simps render_raises_simps render_raises_plain
            plain_dune)
    have del: "execute sub [TextV ''H0''] statement db0 = (None, statement db0)" for statement
      by (rule execute_raises_None) (simp add: execute_plain_text plain_dune)
    have dl: "del_book_from_link_tables sub ''H0'' db0 = (None, db0)"
      by (simp add: del_book_from_link_tables_def LOOKUP_TABLES_def COLLATION_TABLES_def del
            delete_book_rows_unmatched [OF un])
    have dr: "del_book_from_reviews sub ''H0'' db0 = (None, db0)"
      by (simp add: del_book_from_reviews_def del delete_book_rows_unmatched [OF un])
    have rh: "kd_remove_html library"
      by (simp add: library_def)
    have ann: "remove_html_markup (Some ''<p>Arrakis</p>'') = ''Arrakis''"
      by (simp add: remove_html_markup_def)
    have "kd_tables (snd (update sub (\<lambda>_. None) 573004800 dune_db dune_row ''H0'' library)) ''authors''
            = db1 ''authors''"
      using links s5 a4 a5
      by (cases e4)
         (simp_all add: update_def dune_row_eq Let_def published_of_def get_thumb_def cover_file_def
            reshape_datum_def dune_def row_id_def row_title_def db0_def [symmetric] rh ann
            upd update_metadata_unmatched [OF un] dl dr)
    with row show ?thesis by simp
  qed
  moreover have "kd_tables library ''authors'' = []"
    by (simp add: library_def)
  ultimately show ?thesis
    using library_unmatched by blast
qed

end
